theory Spec2Isabelle
  imports Complex_Main
begin

section \<open>Dates and times\<close>

text \<open>
  A \<open>datetime\<close> is the wall-clock reading in IST that \<open>get_next_run_time\<close> works on after
  its first four lines (\<open>IST.localize\<close> for a naive value, \<open>astimezone(IST)\<close> for any other
  zone): IST is a fixed offset, so every comparison and every \<open>replace\<close> of the function
  acts on these fields alone. The calendar date is kept as its proleptic Gregorian ordinal
  (\<open>date.toordinal()\<close>): 1 for 0001-01-01 and \<open>MAXORDINAL\<close> for 9999-12-31, the first and
  the last date that Python has. The other fields are Python ints.
\<close>

record datetime =
  ordinal :: int
  hour :: int
  minute :: int
  second :: int
  microsecond :: int

text \<open>\<open>date.max.toordinal()\<close>, the ordinal of 9999-12-31.\<close>

definition MAXORDINAL :: int where
  "MAXORDINAL = 3652059"

text \<open>The time of day is one that a Python \<open>datetime\<close> object can hold.\<close>

definition valid_time :: "datetime \<Rightarrow> bool" where
  "valid_time t \<longleftrightarrow>
     0 \<le> hour t \<and> hour t < 24 \<and> 0 \<le> minute t \<and> minute t < 60 \<and>
     0 \<le> second t \<and> second t < 60 \<and> 0 \<le> microsecond t \<and> microsecond t < 1000000"

text \<open>
  The values a Python \<open>datetime\<close> object can hold: a time of day on a date from
  0001-01-01 to 9999-12-31.
\<close>

definition valid_datetime :: "datetime \<Rightarrow> bool" where
  "valid_datetime t \<longleftrightarrow> valid_time t \<and> 1 \<le> ordinal t \<and> ordinal t \<le> MAXORDINAL"

text \<open>\<open>date.weekday()\<close>: Monday is 0, Sunday is 6; CPython computes it from the ordinal.\<close>

definition weekday :: "datetime \<Rightarrow> int" where
  "weekday t = (ordinal t + 6) mod 7"

text \<open>
  \<open>a < b\<close> and \<open>a > b\<close> on two datetimes of the same zone compare the fields
  lexicographically, date first.
\<close>

definition dt_less :: "datetime \<Rightarrow> datetime \<Rightarrow> bool" where
  "dt_less a b \<longleftrightarrow>
     ordinal a < ordinal b \<or> (ordinal a = ordinal b \<and>
     (hour a < hour b \<or> (hour a = hour b \<and>
     (minute a < minute b \<or> (minute a = minute b \<and>
     (second a < second b \<or> (second a = second b \<and>
      microsecond a < microsecond b)))))))"

definition dt_greater :: "datetime \<Rightarrow> datetime \<Rightarrow> bool" where
  "dt_greater a b \<longleftrightarrow> dt_less b a"

definition dt_le :: "datetime \<Rightarrow> datetime \<Rightarrow> bool" where
  "dt_le a b \<longleftrightarrow> dt_less a b \<or> a = b"

text \<open>
  A \<open>timedelta\<close> is normalised by Python to days, seconds and microseconds; it is kept here
  as its total number of microseconds. \<open>timedelta_of d s\<close> is \<open>timedelta(days=d, seconds=s)\<close>.
\<close>

type_synonym timedelta = int

definition timedelta_of :: "int \<Rightarrow> int \<Rightarrow> timedelta" where
  "timedelta_of d s = (d * 86400 + s) * 1000000"

definition to_microseconds :: "datetime \<Rightarrow> int" where
  "to_microseconds t =
     (((ordinal t * 24 + hour t) * 60 + minute t) * 60 + second t) * 1000000 + microsecond t"

text \<open>
  The exceptions of the program. \<open>ValueError\<close> is what \<open>datetime.replace\<close> raises for a
  field out of range and what \<open>time.sleep\<close> raises for a negative duration;
  \<open>OverflowError\<close> is what \<open>datetime + timedelta\<close> raises when the date of the sum is not
  one that Python has. \<open>FetchFailed\<close> and \<open>SendFailed\<close> stand for whatever exception
  \<open>fetch_chartink_data\<close> and \<open>send_to_telegram\<close> re-raise once their retries are used up.
\<close>

datatype exn = ValueError | OverflowError | FetchFailed | SendFailed

text \<open>
  \<open>datetime + timedelta\<close>: CPython adds the delta to the datetime taken as a delta from
  ordinal 0, splits the sum again with \<open>divmod\<close> into a date and a time of day, and raises
  \<open>OverflowError\<close> unless \<open>0 < days <= _MAXORDINAL\<close>.
\<close>

definition from_microseconds :: "int \<Rightarrow> datetime" where
  "from_microseconds us =
     (let days = us div 86400000000;
          rest = us mod 86400000000;
          secs = rest div 1000000
      in \<lparr>ordinal = days, hour = secs div 3600, minute = (secs mod 3600) div 60,
          second = secs mod 60, microsecond = rest mod 1000000\<rparr>)"

definition dt_add :: "datetime \<Rightarrow> timedelta \<Rightarrow> exn + datetime" where
  "dt_add t d =
     (let sum = from_microseconds (to_microseconds t + d)
      in if 0 < ordinal sum \<and> ordinal sum \<le> MAXORDINAL then Inr sum
         else Inl OverflowError)"

text \<open>\<open>a - b\<close> on two datetimes of the same zone.\<close>

definition dt_diff :: "datetime \<Rightarrow> datetime \<Rightarrow> timedelta" where
  "dt_diff a b = to_microseconds a - to_microseconds b"

text \<open>
  \<open>timedelta.total_seconds()\<close>. Python returns the double nearest to this quotient; the
  quotient is kept exact here. The loop compares it with 0 and with \<open>24 * 3600\<close> only, and
  a whole number of microseconds is above (or below) such a bound exactly when its nearest
  double is.
\<close>

definition total_seconds :: "timedelta \<Rightarrow> rat" where
  "total_seconds d = of_int d / 1000000"

text \<open>\<open>t.replace(hour=h, minute=m, second=s, microsecond=us)\<close>.\<close>

definition replace :: "datetime \<Rightarrow> int \<Rightarrow> int \<Rightarrow> int \<Rightarrow> int \<Rightarrow> exn + datetime" where
  "replace t h m s us =
     (if 0 \<le> h \<and> h < 24 \<and> 0 \<le> m \<and> m < 60 \<and> 0 \<le> s \<and> s < 60 \<and> 0 \<le> us \<and> us < 1000000
      then Inr (t\<lparr>hour := h, minute := m, second := s, microsecond := us\<rparr>)
      else Inl ValueError)"

section \<open>Configuration\<close>

text \<open>
  Modelled from the spec: the module \<open>config\<close>, from which the scanner imports its constants,
  is not among the sources. The values are the ones the docstring of \<open>get_next_run_time\<close>
  gives (trading window 09:15 to 15:15 IST, a run every 15 minutes) and the scenario of the
  specification uses.
\<close>

definition TRADING_START_HOUR :: int where "TRADING_START_HOUR = 9"
definition TRADING_START_MINUTE :: int where "TRADING_START_MINUTE = 15"
definition TRADING_END_HOUR :: int where "TRADING_END_HOUR = 15"
definition TRADING_END_MINUTE :: int where "TRADING_END_MINUTE = 15"
definition SCAN_INTERVAL_MINUTES :: int where "SCAN_INTERVAL_MINUTES = 15"

lemmas config_defs =
  TRADING_START_HOUR_def TRADING_START_MINUTE_def TRADING_END_HOUR_def
  TRADING_END_MINUTE_def SCAN_INTERVAL_MINUTES_def

section \<open>The planner\<close>

text \<open>
  The loop \<open>while next_day.weekday() >= 5: next_day += timedelta(days=1)\<close>; an exception
  of the addition leaves it.
\<close>

function skip_weekend :: "datetime \<Rightarrow> exn + datetime" where
  "skip_weekend next_day =
     (if weekday next_day \<ge> 5 then
        (case dt_add next_day (timedelta_of 1 0) of
           Inl e \<Rightarrow> Inl e
         | Inr next_day \<Rightarrow> skip_weekend next_day)
      else Inr next_day)"
  by pat_completeness auto

text \<open>
  The block that both the after-hours branch and the overflow branch of
  \<open>get_next_run_time\<close> run (the source has it twice, word for word): the day after \<open>now\<close>,
  moved past Saturday and Sunday, at the start of the session.
\<close>

definition next_day_start :: "datetime \<Rightarrow> exn + datetime" where
  "next_day_start now =
     (case dt_add now (timedelta_of 1 0) of
        Inl e \<Rightarrow> Inl e
      | Inr next_day \<Rightarrow>
     (case skip_weekend next_day of
        Inl e \<Rightarrow> Inl e
      | Inr next_day \<Rightarrow> replace next_day TRADING_START_HOUR TRADING_START_MINUTE 0 0))"

text \<open>
  \<open>get_next_run_time(now)\<close>, from the definition of \<open>trading_start\<close> on; \<open>now\<close> is the
  reading in IST. An exception of \<open>replace\<close> or of an addition leaves the function at once.
\<close>

definition get_next_run_time :: "datetime \<Rightarrow> exn + datetime" where
  "get_next_run_time now =
     (case replace now TRADING_START_HOUR TRADING_START_MINUTE 0 0 of
        Inl e \<Rightarrow> Inl e
      | Inr trading_start \<Rightarrow>
     (case replace now TRADING_END_HOUR TRADING_END_MINUTE 0 0 of
        Inl e \<Rightarrow> Inl e
      | Inr trading_end \<Rightarrow>
          if dt_less now trading_start then Inr trading_start
          else if dt_greater now trading_end then next_day_start now
          else
            let minutes = (minute now div SCAN_INTERVAL_MINUTES + 1) * SCAN_INTERVAL_MINUTES;
                hr = hour now;
                carried = (minutes = 60);
                minutes = (if carried then 0 else minutes);
                hr = (if carried then hr + 1 else hr)
            in (case replace now hr minutes 0 0 of
                  Inl e \<Rightarrow> Inl e
                | Inr candidate \<Rightarrow>
                    if dt_greater candidate trading_end then next_day_start now
                    else Inr candidate)))"

section \<open>The scheduler loop\<close>

text \<open>
  What one pass through the body of \<open>main_loop\<close> does to the outside world is a list
  of events, oldest first: a log line, a \<open>time.sleep\<close> of so many seconds, the calls of
  \<open>fetch_chartink_data\<close> and \<open>send_to_telegram\<close> that \<open>job\<close> makes.
\<close>

datatype event = LogInfo | LogError exn | Sleep rat | Fetch | Send

text \<open>
  What the outside world hands to one pass: the clock reading of \<open>now = get_ist_time()\<close>,
  the later reading that \<open>is_trading_day()\<close> takes for itself, and whether the
  two calls of \<open>job\<close> raise.
\<close>

record readings =
  now_reading :: datetime
  day_reading :: datetime
  fetch_fails :: bool
  send_fails :: bool

text \<open>
  A statement of the body either completes (\<open>Inr ()\<close>) or raises (\<open>Inl e\<close>); either way
  it leaves the events it got to. \<open>and_then\<close> is the semicolon.
\<close>

type_synonym effect = "event list \<times> (exn + unit)"

definition and_then :: "effect \<Rightarrow> effect \<Rightarrow> effect" where
  "and_then a b =
     (case a of
        (evs, Inl e) \<Rightarrow> (evs, Inl e)
      | (evs, Inr _) \<Rightarrow> (evs @ fst b, snd b))"

definition log_info :: effect where
  "log_info = ([LogInfo], Inr ())"

definition raise :: "exn \<Rightarrow> effect" where
  "raise e = ([], Inl e)"

text \<open>\<open>time.sleep(secs)\<close>, which refuses a negative duration.\<close>

definition sleep :: "rat \<Rightarrow> effect" where
  "sleep secs = (if secs < 0 then raise ValueError else ([Sleep secs], Inr ()))"

text \<open>\<open>is_trading_day()\<close>, as a function of the clock reading it takes.\<close>

definition is_trading_day :: "datetime \<Rightarrow> bool" where
  "is_trading_day today \<longleftrightarrow> weekday today < 5"

text \<open>\<open>job()\<close>: a log line, the fetch, then the send of what was fetched.\<close>

definition job :: "readings \<Rightarrow> effect" where
  "job env =
     and_then log_info
       (and_then (if fetch_fails env then ([Fetch], Inl FetchFailed) else ([Fetch], Inr ()))
                 (if send_fails env then ([Send], Inl SendFailed) else ([Send], Inr ())))"

text \<open>
  The body from the test of \<open>wait_seconds\<close> against 24 hours to its last line, \<open>job()\<close>.
\<close>

definition wait_and_run :: "rat \<Rightarrow> readings \<Rightarrow> effect" where
  "wait_and_run wait_seconds env =
     (if wait_seconds > 24 * 3600 then and_then log_info (sleep wait_seconds)
      else and_then
             (if wait_seconds > 0 then and_then log_info (sleep wait_seconds) else sleep 1)
             (job env))"

text \<open>The weekend branch: the target that the body computes from \<open>now\<close>.\<close>

definition next_monday_start :: "datetime \<Rightarrow> exn + datetime" where
  "next_monday_start now =
     (case dt_add now (timedelta_of (7 - weekday now) 0) of
        Inl e \<Rightarrow> Inl e
      | Inr next_day \<Rightarrow> replace next_day TRADING_START_HOUR TRADING_START_MINUTE 0 0)"

text \<open>The body of the \<open>try\<close> statement.\<close>

definition loop_body :: "readings \<Rightarrow> effect" where
  "loop_body env =
     (let now = now_reading env in
      if \<not> is_trading_day (day_reading env) then
        (case next_monday_start now of
           Inl e \<Rightarrow> raise e
         | Inr next_run \<Rightarrow>
             let wait_seconds = total_seconds (dt_diff next_run now)
             in and_then log_info (sleep wait_seconds))
      else
        (case get_next_run_time now of
           Inl e \<Rightarrow> raise e
         | Inr next_run \<Rightarrow>
             let wait_seconds = total_seconds (dt_diff next_run now)
             in wait_and_run wait_seconds env))"

text \<open>
  One turn of \<open>while True\<close>: the body, and for an exception the handler, which logs it
  and sleeps 60 seconds. Both ways lead back to the head of the loop.
\<close>

definition iteration :: "readings \<Rightarrow> event list" where
  "iteration env =
     (case loop_body env of
        (evs, Inl e) \<Rightarrow> evs @ [LogError e, Sleep 60]
      | (evs, Inr _) \<Rightarrow> evs)"

text \<open>
  \<open>main_loop()\<close> never returns. Its run over the first turns is the run over a list of
  readings, one per turn: every turn takes its own readings and none of an earlier turn.
\<close>

fun main_loop :: "readings list \<Rightarrow> event list" where
  "main_loop [] = []"
| "main_loop (env # rest) = iteration env @ main_loop rest"

section \<open>Notions of the specification\<close>

text \<open>The start and the end of the session on the date of \<open>t\<close>.\<close>

definition session_start :: "datetime \<Rightarrow> datetime" where
  "session_start t =
     t\<lparr>hour := TRADING_START_HOUR, minute := TRADING_START_MINUTE, second := 0, microsecond := 0\<rparr>"

definition session_end :: "datetime \<Rightarrow> datetime" where
  "session_end t =
     t\<lparr>hour := TRADING_END_HOUR, minute := TRADING_END_MINUTE, second := 0, microsecond := 0\<rparr>"

text \<open>The weekday of the date with a given ordinal.\<close>

definition ordinal_weekday :: "int \<Rightarrow> int" where
  "ordinal_weekday d = (d + 6) mod 7"

text \<open>
  \<open>r\<close> is the start of the session on the next trading day after the date of \<open>t\<close>: a later
  date that is a Monday to Friday, with only Saturdays and Sundays in between.
\<close>

definition next_trading_day_start :: "datetime \<Rightarrow> datetime \<Rightarrow> bool" where
  "next_trading_day_start t r \<longleftrightarrow>
     r = session_start r \<and> ordinal t < ordinal r \<and> ordinal_weekday (ordinal r) < 5 \<and>
     (\<forall>d \<in> {ordinal t <..< ordinal r}. 5 \<le> ordinal_weekday d)"

text \<open>
  A grid instant: a time \<open>hour:minute:00\<close> whose minute is a multiple of the interval.
\<close>

definition grid_instant :: "datetime \<Rightarrow> bool" where
  "grid_instant g \<longleftrightarrow>
     valid_time g \<and> minute g mod SCAN_INTERVAL_MINUTES = 0 \<and> second g = 0 \<and>
     microsecond g = 0"

text \<open>
  The snap of the specification, in its words: the minute becomes
  \<open>ceil((minute + 1) / intervalMinutes) * intervalMinutes\<close>, a minute of 60 is carried into
  the next hour, seconds and below are zeroed.
\<close>

definition snap_forward :: "datetime \<Rightarrow> datetime" where
  "snap_forward t =
     (let m = \<lceil>(of_int (minute t) + 1) / (of_int SCAN_INTERVAL_MINUTES :: rat)\<rceil>
              * SCAN_INTERVAL_MINUTES
      in if m = 60 then t\<lparr>hour := hour t + 1, minute := 0, second := 0, microsecond := 0\<rparr>
         else t\<lparr>minute := m, second := 0, microsecond := 0\<rparr>)"

text \<open>
  The number of days from a date of weekday \<open>w\<close> to the next date that is a Monday to
  Friday: three from a Friday, two from a Saturday, one from any other day.
\<close>

definition days_ahead :: "int \<Rightarrow> int" where
  "days_ahead w = (if w = 4 then 3 else if w = 5 then 2 else 1)"

section \<open>Date arithmetic\<close>

lemma split_div:
  fixes q r k :: int
  assumes "0 \<le> r" "r < k"
  shows "(q * k + r) div k = q"
  using assms by simp

lemma split_mod:
  fixes q r k :: int
  assumes "0 \<le> r" "r < k"
  shows "(q * k + r) mod k = r"
  using assms by simp

lemma valid_from_microseconds: "valid_time (from_microseconds us)"
proof -
  define rest where "rest = us mod 86400000000"
  define secs where "secs = rest div 1000000"
  have r: "0 \<le> rest" "rest < 86400000000" by (simp_all add: rest_def)
  have s: "0 \<le> secs" "secs < 86400"
    using r by (simp_all add: secs_def pos_imp_zdiv_nonneg_iff div_less_iff_less_mult)
  have h: "0 \<le> secs div 3600" "secs div 3600 < 24"
    using s by (simp_all add: pos_imp_zdiv_nonneg_iff div_less_iff_less_mult)
  have m: "0 \<le> (secs mod 3600) div 60" "(secs mod 3600) div 60 < 60"
    by (simp_all add: pos_imp_zdiv_nonneg_iff div_less_iff_less_mult)
  have c: "0 \<le> secs mod 60" "secs mod 60 < 60" by simp_all
  have u: "0 \<le> rest mod 1000000" "rest mod 1000000 < 1000000" by simp_all
  have eq: "from_microseconds us =
      \<lparr>ordinal = us div 86400000000, hour = secs div 3600,
       minute = (secs mod 3600) div 60, second = secs mod 60,
       microsecond = rest mod 1000000\<rparr>"
    by (simp only: from_microseconds_def Let_def rest_def secs_def)
  show ?thesis
    unfolding eq valid_time_def
    using h m c u by (simp only: datetime.select_convs simp_thms)
qed

text \<open>A sum that does not raise is a datetime that Python has.\<close>

lemma valid_dt_add:
  assumes "dt_add t d = Inr u"
  shows "valid_datetime u"
  using assms valid_from_microseconds[of "to_microseconds t + d"]
  by (auto simp: dt_add_def Let_def valid_datetime_def split: if_splits)

lemma valid_fields:
  assumes "valid_time t"
  shows "0 \<le> hour t" "hour t < 24" "0 \<le> minute t" "minute t < 60"
    "0 \<le> second t" "second t < 60" "0 \<le> microsecond t" "microsecond t < 1000000"
  using assms by (simp_all add: valid_time_def)

lemma valid_datetime_time:
  assumes "valid_datetime t"
  shows "valid_time t"
  using assms by (simp add: valid_datetime_def)

lemma valid_datetime_range:
  assumes "valid_datetime t"
  shows "1 \<le> ordinal t" "ordinal t \<le> MAXORDINAL"
  using assms by (simp_all add: valid_datetime_def)

text \<open>Splitting the microseconds of a datetime gives the datetime back.\<close>

lemma from_to_microseconds:
  assumes "valid_time t"
  shows "from_microseconds (to_microseconds t) = t"
proof -
  define ms where "ms = minute t * 60 + second t"
  define sod where "sod = hour t * 3600 + ms"
  define r where "r = sod * 1000000 + microsecond t"
  note v = valid_fields[OF assms]
  have ms: "0 \<le> ms" "ms < 3600" using v by (simp_all add: ms_def)
  have sod: "0 \<le> sod" "sod < 86400" using v ms by (simp_all add: sod_def)
  have rb: "0 \<le> r" "r < 86400000000" using v sod by (simp_all add: r_def)
  have tot: "to_microseconds t = ordinal t * 86400000000 + r"
    by (simp add: to_microseconds_def r_def sod_def ms_def algebra_simps)
  have d: "to_microseconds t div 86400000000 = ordinal t"
    unfolding tot by (rule split_div[OF rb])
  have m: "to_microseconds t mod 86400000000 = r"
    unfolding tot by (rule split_mod[OF rb])
  have r1: "r div 1000000 = sod" unfolding r_def by (rule split_div[OF v(7,8)])
  have r2: "r mod 1000000 = microsecond t" unfolding r_def by (rule split_mod[OF v(7,8)])
  have s1: "sod div 3600 = hour t" unfolding sod_def by (rule split_div[OF ms])
  have s2: "sod mod 3600 = ms" unfolding sod_def by (rule split_mod[OF ms])
  have s3: "ms div 60 = minute t" unfolding ms_def by (rule split_div[OF v(5,6)])
  have "sod = (hour t * 60 + minute t) * 60 + second t"
    by (simp add: sod_def ms_def algebra_simps)
  then have s4: "sod mod 60 = second t"
    using split_mod[OF v(5,6), of "hour t * 60 + minute t"] by simp
  show ?thesis
    by (simp add: from_microseconds_def Let_def d m r1 r2 s1 s2 s3 s4)
qed

text \<open>
  A sum is the datetime that has the right number of microseconds, if its date is one
  that Python has, and \<open>OverflowError\<close> if not.
\<close>

lemma dt_add_time:
  assumes "valid_time u" "to_microseconds u = to_microseconds t + d"
  shows "dt_add t d =
         (if 0 < ordinal u \<and> ordinal u \<le> MAXORDINAL then Inr u else Inl OverflowError)"
  using from_to_microseconds[OF assms(1)] assms(2) by (simp add: dt_add_def)

lemma dt_add_eq:
  assumes "valid_datetime u" "to_microseconds u = to_microseconds t + d"
  shows "dt_add t d = Inr u"
  using dt_add_time[OF valid_datetime_time[OF assms(1)] assms(2)]
    valid_datetime_range[OF assms(1)] by simp

text \<open>Adding whole days to a datetime moves its date and nothing else.\<close>

lemma dt_add_days:
  assumes "valid_time t"
  shows "dt_add t (timedelta_of n 0) =
         (if 0 < ordinal t + n \<and> ordinal t + n \<le> MAXORDINAL
          then Inr (t\<lparr>ordinal := ordinal t + n\<rparr>) else Inl OverflowError)"
proof -
  have v: "valid_time (t\<lparr>ordinal := ordinal t + n\<rparr>)"
    using assms by (simp add: valid_time_def)
  have m: "to_microseconds (t\<lparr>ordinal := ordinal t + n\<rparr>)
           = to_microseconds t + timedelta_of n 0"
    by (simp add: to_microseconds_def timedelta_of_def algebra_simps)
  show ?thesis using dt_add_time[OF v m] by simp
qed

lemma weekday_range: "0 \<le> weekday t" "weekday t < 7"
  by (simp_all add: weekday_def)

lemma valid_time_ordinal_update [simp]:
  "valid_time (t\<lparr>ordinal := d\<rparr>) = valid_time t"
  by (simp add: valid_time_def)

lemma weekday_next_day:
  "weekday (t\<lparr>ordinal := ordinal t + 1\<rparr>) = (if weekday t = 6 then 0 else weekday t + 1)"
  unfolding weekday_def by simp presburger

termination skip_weekend
proof (relation "measure (\<lambda>t. if valid_time t
          then (if weekday t = 5 then 2 else if weekday t = 6 then 1 else 0) else 3)")
  show "wf (measure (\<lambda>t. if valid_time t
          then (if weekday t = 5 then 2 else if weekday t = 6 then 1 else 0) else 3))"
    by simp
next
  fix next_day later :: datetime
  assume w: "5 \<le> weekday next_day"
    and a: "dt_add next_day (timedelta_of 1 0) = Inr later"
  have vl: "valid_time later" by (rule valid_datetime_time[OF valid_dt_add[OF a]])
  show "(later, next_day) \<in> measure (\<lambda>t. if valid_time t
          then (if weekday t = 5 then 2 else if weekday t = 6 then 1 else 0) else 3)"
  proof (cases "valid_time next_day")
    case True
    have "weekday next_day = 5 \<or> weekday next_day = 6"
      using w weekday_range(2)[of next_day] by linarith
    moreover have "later = next_day\<lparr>ordinal := ordinal next_day + 1\<rparr>"
      using a dt_add_days[OF True, of 1] by (simp split: if_splits)
    ultimately show ?thesis
      using True by (auto simp: weekday_next_day)
  next
    case False
    then show ?thesis using vl by simp
  qed
qed

declare skip_weekend.simps [simp del]

text \<open>The last date of the calendar is a Friday.\<close>

lemma friday_before_last:
  assumes "(d + 6) mod 7 = 4" "d < MAXORDINAL"
  shows "d + 7 \<le> MAXORDINAL"
  using assms unfolding MAXORDINAL_def by presburger

lemma saturday_before_last:
  assumes "(d + 6) mod 7 = 5" "d \<le> MAXORDINAL"
  shows "d + 6 \<le> MAXORDINAL"
  using assms unfolding MAXORDINAL_def by presburger

lemma sunday_before_last:
  assumes "(d + 6) mod 7 = 6" "d \<le> MAXORDINAL"
  shows "d + 5 \<le> MAXORDINAL"
  using assms unfolding MAXORDINAL_def by presburger

section \<open>The next trading day\<close>

lemma replace_start: "replace t TRADING_START_HOUR TRADING_START_MINUTE 0 0 = Inr (session_start t)"
  by (simp add: replace_def session_start_def config_defs)

lemma replace_end: "replace t TRADING_END_HOUR TRADING_END_MINUTE 0 0 = Inr (session_end t)"
  by (simp add: replace_def session_end_def config_defs)

lemma skip_weekend_weekday:
  assumes "weekday d < 5"
  shows "skip_weekend d = Inr d"
  using assms by (subst skip_weekend.simps) simp

lemma weekday_ordinal_update:
  "weekday (t\<lparr>ordinal := d\<rparr>) = ordinal_weekday d"
  by (simp add: weekday_def ordinal_weekday_def)

lemma skip_weekend_sunday:
  assumes "valid_time d" "weekday d = 6" "0 \<le> ordinal d" "ordinal d + 1 \<le> MAXORDINAL"
  shows "skip_weekend d = Inr (d\<lparr>ordinal := ordinal d + 1\<rparr>)"
proof -
  have "weekday (d\<lparr>ordinal := ordinal d + 1\<rparr>) < 5"
    using assms(2) by (simp add: weekday_next_day)
  then show ?thesis
    using assms
    by (subst skip_weekend.simps) (simp add: dt_add_days skip_weekend_weekday)
qed

lemma skip_weekend_saturday:
  assumes "valid_time d" "weekday d = 5" "0 \<le> ordinal d" "ordinal d + 2 \<le> MAXORDINAL"
  shows "skip_weekend d = Inr (d\<lparr>ordinal := ordinal d + 2\<rparr>)"
proof -
  have "weekday (d\<lparr>ordinal := ordinal d + 1\<rparr>) = 6"
    using assms(2) by (simp add: weekday_next_day)
  then have "skip_weekend (d\<lparr>ordinal := ordinal d + 1\<rparr>) = Inr (d\<lparr>ordinal := ordinal d + 2\<rparr>)"
    using assms(1,3,4) skip_weekend_sunday[of "d\<lparr>ordinal := ordinal d + 1\<rparr>"] by simp
  then show ?thesis
    using assms by (subst skip_weekend.simps) (simp add: dt_add_days)
qed

text \<open>
  Before the last date of the calendar the next trading day is a date of the calendar.
\<close>

lemma days_ahead_in_range:
  assumes "1 \<le> ordinal t" "ordinal t < MAXORDINAL"
  shows "ordinal t + days_ahead (weekday t) \<le> MAXORDINAL"
proof -
  consider "weekday t = 4" | "weekday t = 5" | "weekday t \<noteq> 4" "weekday t \<noteq> 5" by blast
  then show ?thesis
  proof cases
    case 1
    then have "ordinal t + 7 \<le> MAXORDINAL"
      using assms(2) by (intro friday_before_last) (simp_all add: weekday_def)
    then show ?thesis using 1 by (simp add: days_ahead_def)
  next
    case 2
    then have "ordinal t + 6 \<le> MAXORDINAL"
      using assms(2) by (intro saturday_before_last) (simp_all add: weekday_def)
    then show ?thesis using 2 by (simp add: days_ahead_def)
  next
    case 3
    then show ?thesis using assms(2) by (simp add: days_ahead_def)
  qed
qed

lemma next_day_start_eq:
  assumes "valid_datetime t" "ordinal t < MAXORDINAL"
  shows "next_day_start t = Inr (session_start (t\<lparr>ordinal := ordinal t + days_ahead (weekday t)\<rparr>))"
proof -
  let ?n = "t\<lparr>ordinal := ordinal t + 1\<rparr>"
  note vt = valid_datetime_time[OF assms(1)]
  note lo = valid_datetime_range(1)[OF assms(1)]
  note hi = days_ahead_in_range[OF lo assms(2)]
  have n: "dt_add t (timedelta_of 1 0) = Inr ?n"
    using dt_add_days[OF vt, of 1] lo assms(2) by simp
  have vn: "valid_time ?n" using vt by simp
  have wn: "weekday ?n = (if weekday t = 6 then 0 else weekday t + 1)" by (rule weekday_next_day)
  consider "weekday t = 4" | "weekday t = 5" | "weekday t \<noteq> 4" "weekday t \<noteq> 5" by blast
  then have "skip_weekend ?n = Inr (t\<lparr>ordinal := ordinal t + days_ahead (weekday t)\<rparr>)"
  proof cases
    case 1
    then show ?thesis
      using skip_weekend_saturday[OF vn] wn lo hi by (simp add: days_ahead_def)
  next
    case 2
    then show ?thesis
      using skip_weekend_sunday[OF vn] wn lo hi by (simp add: days_ahead_def)
  next
    case 3
    then have "weekday ?n < 5" using wn weekday_range[of t] by (auto split: if_splits)
    then show ?thesis using 3 skip_weekend_weekday[of ?n] by (simp add: days_ahead_def)
  qed
  then show ?thesis
    by (simp add: next_day_start_def n replace_start)
qed

text \<open>On the last date of the calendar there is no day after.\<close>

lemma next_day_start_overflow:
  assumes "valid_time t" "MAXORDINAL \<le> ordinal t"
  shows "next_day_start t = Inl OverflowError"
  using assms by (simp add: next_day_start_def dt_add_days)

lemma ordinal_weekday_shift:
  "ordinal_weekday (d + k) = (ordinal_weekday d + k) mod 7"
  by (simp add: ordinal_weekday_def mod_simps ac_simps)

lemma weekday_values:
  "weekday t = 0 \<or> weekday t = 1 \<or> weekday t = 2 \<or> weekday t = 3 \<or> weekday t = 4 \<or>
   weekday t = 5 \<or> weekday t = 6"
  using weekday_range[of t] by arith

lemma next_trading_day_start_ahead:
  "next_trading_day_start t (session_start (t\<lparr>ordinal := ordinal t + days_ahead (weekday t)\<rparr>))"
proof -
  define w where "w = weekday t"
  have ow: "ordinal_weekday (ordinal t) = w"
    by (simp add: w_def weekday_def ordinal_weekday_def)
  have shift: "ordinal_weekday (ordinal t + k) = (w + k) mod 7" for k
    using ordinal_weekday_shift[of "ordinal t" k] ow by simp
  have wv: "w = 0 \<or> w = 1 \<or> w = 2 \<or> w = 3 \<or> w = 4 \<or> w = 5 \<or> w = 6"
    unfolding w_def by (rule weekday_values)
  have a: "ordinal_weekday (ordinal t + days_ahead w) < 5"
    unfolding shift using wv by (auto simp: days_ahead_def)
  have b: "5 \<le> ordinal_weekday d" if "d \<in> {ordinal t <..< ordinal t + days_ahead w}" for d
  proof -
    define j where "j = d - ordinal t"
    have d: "d = ordinal t + j" by (simp add: j_def)
    have j: "0 < j" "j < days_ahead w" using that by (auto simp: j_def)
    have "(w = 4 \<and> (j = 1 \<or> j = 2)) \<or> (w = 5 \<and> j = 1)"
      using j by (auto simp: days_ahead_def split: if_splits)
    then show ?thesis unfolding d shift by auto
  qed
  have c: "0 < days_ahead w" by (simp add: days_ahead_def)
  show ?thesis
    using a b c by (simp add: next_trading_day_start_def session_start_def w_def)
qed

section \<open>The planner: before and after the session\<close>

lemma premarket_lemma:
  assumes "dt_less t (session_start t)"
  shows "get_next_run_time t = Inr (session_start t)"
  using assms by (simp add: get_next_run_time_def replace_start replace_end)

text \<open>
  Claim C3. For every instant \<open>t\<close> strictly before the start of the session on its own date,
  \<open>get_next_run_time\<close> returns the start of the session on that date: hour
  \<open>TRADING_START_HOUR\<close>, minute \<open>TRADING_START_MINUTE\<close>, seconds and microseconds zero.
\<close>

theorem premarket_returns_session_start:
  assumes "dt_less t (session_start t)"
  shows "get_next_run_time t = Inr (session_start t)"
  using assms by (rule premarket_lemma)

theorem premarket_returns_session_start_witness:
  "dt_less \<lparr>ordinal = 738886, hour = 9, minute = 14, second = 59, microsecond = 0\<rparr>
     (session_start \<lparr>ordinal = 738886, hour = 9, minute = 14, second = 59, microsecond = 0\<rparr>) \<and>
   get_next_run_time \<lparr>ordinal = 738886, hour = 9, minute = 14, second = 59, microsecond = 0\<rparr>
     = Inr \<lparr>ordinal = 738886, hour = 9, minute = 15, second = 0, microsecond = 0\<rparr>"
  using premarket_returns_session_start
          [of "\<lparr>ordinal = 738886, hour = 9, minute = 14, second = 59, microsecond = 0\<rparr>"]
  by (simp add: dt_less_def session_start_def config_defs)

lemma after_end_not_before_start:
  assumes "dt_greater t (session_end t)"
  shows "\<not> dt_less t (session_start t)"
  using assms
  by (auto simp: dt_greater_def dt_less_def session_start_def session_end_def config_defs)

lemma after_hours_next_day:
  assumes "valid_datetime t" "dt_greater t (session_end t)" "ordinal t < MAXORDINAL"
  shows "get_next_run_time t =
         Inr (session_start (t\<lparr>ordinal := ordinal t + days_ahead (weekday t)\<rparr>))"
  using assms after_end_not_before_start[OF assms(2)]
  by (simp add: get_next_run_time_def replace_start replace_end next_day_start_eq)

lemma after_hours_overflow:
  assumes "valid_time t" "dt_greater t (session_end t)" "MAXORDINAL \<le> ordinal t"
  shows "get_next_run_time t = Inl OverflowError"
  using assms after_end_not_before_start[OF assms(2)]
  by (simp add: get_next_run_time_def replace_start replace_end next_day_start_overflow)

text \<open>
  The claim C4 as the specification words it fails on the last date that Python has: after
  the session of 9999-12-31 there is no next day, and the planner raises.
\<close>

theorem after_hours_last_day_counterexample:
  "valid_datetime \<lparr>ordinal = 3652059, hour = 16, minute = 0, second = 0, microsecond = 0\<rparr> \<and>
   dt_greater \<lparr>ordinal = 3652059, hour = 16, minute = 0, second = 0, microsecond = 0\<rparr>
     (session_end \<lparr>ordinal = 3652059, hour = 16, minute = 0, second = 0, microsecond = 0\<rparr>) \<and>
   get_next_run_time \<lparr>ordinal = 3652059, hour = 16, minute = 0, second = 0, microsecond = 0\<rparr>
     = Inl OverflowError"
proof -
  let ?t = "\<lparr>ordinal = 3652059, hour = 16, minute = 0, second = 0, microsecond = 0\<rparr>"
  have v: "valid_datetime ?t" by (simp add: valid_datetime_def valid_time_def MAXORDINAL_def)
  have g: "dt_greater ?t (session_end ?t)"
    by (simp add: dt_greater_def dt_less_def session_end_def config_defs)
  have "get_next_run_time ?t = Inl OverflowError"
    by (rule after_hours_overflow[OF valid_datetime_time[OF v] g]) (simp add: MAXORDINAL_def)
  then show ?thesis using v g by simp
qed

text \<open>
  Claim C4, as the code has it. For every instant \<open>t\<close> strictly after the end of the
  session on a date before 9999-12-31, \<open>get_next_run_time\<close> returns the start of the
  session on the next trading day: the first date after that of \<open>t\<close> which is not a
  Saturday or a Sunday. After the end of the session on 9999-12-31 it raises
  \<open>OverflowError\<close>.
\<close>

theorem after_hours_returns_next_trading_day:
  assumes "valid_datetime t" "dt_greater t (session_end t)"
  shows "(ordinal t < MAXORDINAL \<longrightarrow>
           (\<exists>r. get_next_run_time t = Inr r \<and> next_trading_day_start t r)) \<and>
         (ordinal t = MAXORDINAL \<longrightarrow> get_next_run_time t = Inl OverflowError)"
  using after_hours_next_day[OF assms] next_trading_day_start_ahead[of t]
    after_hours_overflow[OF valid_datetime_time[OF assms(1)] assms(2)]
  by simp

theorem after_hours_returns_next_trading_day_witness:
  "valid_datetime \<lparr>ordinal = 738890, hour = 15, minute = 15, second = 1, microsecond = 0\<rparr> \<and>
   dt_greater \<lparr>ordinal = 738890, hour = 15, minute = 15, second = 1, microsecond = 0\<rparr>
     (session_end \<lparr>ordinal = 738890, hour = 15, minute = 15, second = 1, microsecond = 0\<rparr>) \<and>
   ordinal \<lparr>ordinal = 738890, hour = 15, minute = 15, second = 1, microsecond = 0\<rparr>
     < MAXORDINAL \<and>
   (\<exists>r. get_next_run_time
           \<lparr>ordinal = 738890, hour = 15, minute = 15, second = 1, microsecond = 0\<rparr> = Inr r \<and>
        next_trading_day_start
           \<lparr>ordinal = 738890, hour = 15, minute = 15, second = 1, microsecond = 0\<rparr> r)"
proof -
  let ?t = "\<lparr>ordinal = 738890, hour = 15, minute = 15, second = 1, microsecond = 0\<rparr>"
  have v: "valid_datetime ?t" by (simp add: valid_datetime_def valid_time_def MAXORDINAL_def)
  have g: "dt_greater ?t (session_end ?t)"
    by (simp add: dt_greater_def dt_less_def session_end_def config_defs)
  have b: "ordinal ?t < MAXORDINAL" by (simp add: MAXORDINAL_def)
  show ?thesis
    using v g b after_hours_returns_next_trading_day[OF v g] by simp
qed

section \<open>The planner: inside the session\<close>

lemma ceiling_interval:
  "\<lceil>(of_int m + 1) / (of_int SCAN_INTERVAL_MINUTES :: rat)\<rceil> = m div SCAN_INTERVAL_MINUTES + 1"
proof -
  have "\<lceil>(of_int m + 1) / (15 :: rat)\<rceil> = \<lceil>of_int (m + 1) / (of_int 15 :: rat)\<rceil>" by simp
  also have "\<dots> = - (- (m + 1) div 15)" by (rule ceiling_divide_eq_div)
  also have "\<dots> = m div 15 + 1" by linarith
  finally show ?thesis by (simp add: config_defs)
qed

text \<open>
  The snap of the specification is the candidate that the code computes: the ceiling is
  the floor division plus one.
\<close>

lemma snap_forward_code:
  "snap_forward t =
     (let minutes = (minute t div SCAN_INTERVAL_MINUTES + 1) * SCAN_INTERVAL_MINUTES
      in if minutes = 60 then t\<lparr>hour := hour t + 1, minute := 0, second := 0, microsecond := 0\<rparr>
         else t\<lparr>minute := minutes, second := 0, microsecond := 0\<rparr>)"
  unfolding snap_forward_def ceiling_interval by (rule refl)

lemma snapped_minutes:
  assumes "0 \<le> m" "m < 60"
  shows "(m div 15 + 1) * 15 \<in> {15, 30, 45, 60}" "m < (m div 15 + 1) * (15::int)"
    "(m div 15 + 1) * 15 \<le> m + (15::int)"
  using assms by auto


lemma in_window_hour:
  assumes "valid_time t" "\<not> dt_less t (session_start t)" "\<not> dt_greater t (session_end t)"
  shows "9 \<le> hour t" "hour t \<le> 15"
  using assms
  by (auto simp: dt_less_def dt_greater_def session_start_def session_end_def config_defs
        valid_time_def)

lemma get_next_run_time_in_window:
  assumes "valid_time t" "\<not> dt_less t (session_start t)" "\<not> dt_greater t (session_end t)"
  shows "get_next_run_time t =
         (if dt_greater (snap_forward t) (session_end t) then next_day_start t
          else Inr (snap_forward t))"
proof -
  define minutes where "minutes = (minute t div 15 + 1) * 15"
  have mm: "minutes \<in> {15, 30, 45, 60}"
    unfolding minutes_def using valid_fields(3,4)[OF assms(1)] by (rule snapped_minutes(1))
  note hr = in_window_hour[OF assms]
  have cand: "replace t (if minutes = 60 then hour t + 1 else hour t)
                (if minutes = 60 then 0 else minutes) 0 0 = Inr (snap_forward t)"
    using mm hr by (auto simp: replace_def snap_forward_code config_defs minutes_def Let_def)
  have "get_next_run_time t =
        (case replace t (if minutes = 60 then hour t + 1 else hour t)
                (if minutes = 60 then 0 else minutes) 0 0 of
           Inl e \<Rightarrow> Inl e
         | Inr candidate \<Rightarrow>
             if dt_greater candidate (session_end t) then next_day_start t
             else Inr candidate)"
    unfolding get_next_run_time_def replace_start replace_end minutes_def
    using assms(2,3) by (simp only: Let_def SCAN_INTERVAL_MINUTES_def sum.case if_False)
  then show ?thesis
    unfolding cand by simp
qed

lemma snap_forward_cases:
  assumes "valid_time t"
  obtains (same_hour) m where "m \<in> {15, 30, 45}" "minute t < m" "m \<le> minute t + 15"
      "snap_forward t = t\<lparr>minute := m, second := 0, microsecond := 0\<rparr>"
  | (next_hour) "45 \<le> minute t"
      "snap_forward t = t\<lparr>hour := hour t + 1, minute := 0, second := 0, microsecond := 0\<rparr>"
proof -
  define m where "m = (minute t div 15 + 1) * 15"
  note v = valid_fields(3,4)[OF assms]
  have mm: "m \<in> {15, 30, 45, 60}" "minute t < m" "m \<le> minute t + 15"
    unfolding m_def using v by (rule snapped_minutes)+
  show thesis
  proof (cases "m = 60")
    case True
    then have "45 \<le> minute t" using mm(3) by simp
    moreover have "snap_forward t = t\<lparr>hour := hour t + 1, minute := 0, second := 0, microsecond := 0\<rparr>"
      using True by (simp add: snap_forward_code Let_def config_defs m_def)
    ultimately show thesis by (rule next_hour)
  next
    case False
    then have "m \<in> {15, 30, 45}" using mm(1) by simp
    moreover have "snap_forward t = t\<lparr>minute := m, second := 0, microsecond := 0\<rparr>"
      using False by (simp add: snap_forward_code Let_def config_defs m_def)
    ultimately show thesis using mm(2,3) same_hour by blast
  qed
qed

lemma snap_forward_later:
  assumes "valid_time t"
  shows "dt_less t (snap_forward t)"
  using assms by (cases t rule: snap_forward_cases) (auto simp: dt_less_def)

lemma snap_forward_grid:
  assumes "valid_time t" "hour t < 23"
  shows "grid_instant (snap_forward t)"
  using assms(1)
proof (cases t rule: snap_forward_cases)
  case (same_hour m)
  then show ?thesis
    using assms by (auto simp: grid_instant_def valid_time_def config_defs)
next
  case next_hour
  then show ?thesis
    using assms by (auto simp: grid_instant_def valid_time_def config_defs)
qed

lemma grid_minute:
  assumes "grid_instant g"
  shows "minute g \<in> {0, 15, 30, 45}" "second g = 0" "microsecond g = 0"
proof -
  have "0 \<le> minute g" "minute g < 60" "minute g mod 15 = 0"
    using assms by (simp_all add: grid_instant_def valid_time_def config_defs)
  then show "minute g \<in> {0, 15, 30, 45}" by auto
  show "second g = 0" "microsecond g = 0" using assms by (simp_all add: grid_instant_def)
qed

lemma snap_forward_least:
  assumes "valid_time t" "grid_instant g" "dt_less t g"
  shows "dt_le (snap_forward t) g"
proof -
  note v = valid_fields[OF assms(1)]
  note g = grid_minute[OF assms(2)]
  have gh: "0 \<le> hour g" using assms(2) by (simp add: grid_instant_def valid_time_def)
  consider (day) "ordinal t < ordinal g"
    | (hour) "ordinal t = ordinal g" "hour t < hour g"
    | (minute) "ordinal t = ordinal g" "hour t = hour g" "minute t < minute g"
    using assms(3) g(2,3) v(5,7) by (auto simp: dt_less_def)
  then show ?thesis
  proof cases
    case day
    from assms(1) show ?thesis
      by (cases t rule: snap_forward_cases) (use day in \<open>auto simp: dt_le_def dt_less_def\<close>)
  next
    case hour
    show ?thesis
      using assms(1)
    proof (cases t rule: snap_forward_cases)
      case (same_hour m)
      then show ?thesis using hour by (auto simp: dt_le_def dt_less_def)
    next
      case next_hour
      have "hour t + 1 < hour g \<or> (hour t + 1 = hour g \<and> 0 < minute g)
            \<or> (hour t + 1 = hour g \<and> minute g = 0)"
        using hour(2) g(1) by auto
      then show ?thesis
        using next_hour(2) hour(1) g(2,3)
        by (auto simp: dt_le_def dt_less_def intro!: datetime.equality)
    qed
  next
    case minute
    show ?thesis
      using assms(1)
    proof (cases t rule: snap_forward_cases)
      case (same_hour m)
      have "m < minute g \<or> m = minute g" using same_hour(1,3) minute(3) g(1) by auto
      then show ?thesis
        using same_hour(4) minute(1,2) g(2,3)
        by (auto simp: dt_le_def dt_less_def intro!: datetime.equality)
    next
      case next_hour
      then have False using minute(3) g(1) by auto
      then show ?thesis ..
    qed
  qed
qed

lemma session_start_plus_interval:
  assumes "t = session_start t" "1 \<le> ordinal t" "ordinal t \<le> MAXORDINAL"
  shows "dt_add t (timedelta_of 0 (SCAN_INTERVAL_MINUTES * 60)) = Inr (snap_forward t)"
proof -
  have f: "hour t = 9" "minute t = 15" "second t = 0" "microsecond t = 0"
    by (subst assms(1), simp add: session_start_def config_defs)+
  have sf: "snap_forward t = t\<lparr>minute := 30\<rparr>"
    unfolding snap_forward_code
    by (rule datetime.equality) (simp_all add: Let_def config_defs f)
  have "dt_add t (timedelta_of 0 (SCAN_INTERVAL_MINUTES * 60)) = Inr (t\<lparr>minute := 30\<rparr>)"
  proof (rule dt_add_eq)
    show "valid_datetime (t\<lparr>minute := 30\<rparr>)"
      using assms(2,3) by (simp add: valid_datetime_def valid_time_def f)
    show "to_microseconds (t\<lparr>minute := 30\<rparr>) =
          to_microseconds t + timedelta_of 0 (SCAN_INTERVAL_MINUTES * 60)"
      by (simp add: to_microseconds_def timedelta_of_def config_defs f)
  qed
  then show ?thesis by (simp add: sf)
qed

text \<open>
  Claim C1. Let \<open>t\<close> lie between the start and the end of the session on its date, both
  included, and let the snapped candidate not exceed the end of the session. Then
  \<open>get_next_run_time\<close> returns the candidate; the candidate is a grid instant strictly
  after \<open>t\<close> (so at least one tick is made even from a grid boundary) and no grid instant
  after \<open>t\<close> is earlier; the minute \<open>(minute // interval + 1) * interval\<close> of the code is
  the \<open>ceil((minute + 1) / interval) * interval\<close> of the specification; from the start of
  the session the result is the start plus one interval; and a candidate equal to the end
  of the session is returned as it is.
\<close>

theorem in_window_next_grid_instant:
  assumes "valid_datetime t"
    and "\<not> dt_less t (session_start t)" and "\<not> dt_greater t (session_end t)"
    and "\<not> dt_greater (snap_forward t) (session_end t)"
  shows "get_next_run_time t = Inr (snap_forward t) \<and>
         grid_instant (snap_forward t) \<and>
         dt_less t (snap_forward t) \<and>
         (\<forall>g. grid_instant g \<and> dt_less t g \<longrightarrow> dt_le (snap_forward t) g) \<and>
         (minute t div SCAN_INTERVAL_MINUTES + 1) * SCAN_INTERVAL_MINUTES =
           \<lceil>(of_int (minute t) + 1) / (of_int SCAN_INTERVAL_MINUTES :: rat)\<rceil>
             * SCAN_INTERVAL_MINUTES \<and>
         (t = session_start t \<longrightarrow>
           get_next_run_time t = dt_add t (timedelta_of 0 (SCAN_INTERVAL_MINUTES * 60))) \<and>
         (snap_forward t = session_end t \<longrightarrow> get_next_run_time t = Inr (session_end t))"
proof -
  note vt = valid_datetime_time[OF assms(1)]
  have r: "get_next_run_time t = Inr (snap_forward t)"
    using get_next_run_time_in_window[OF vt assms(2,3)] assms(4) by simp
  have "hour t < 23" using in_window_hour(2)[OF vt assms(2,3)] by simp
  then have g: "grid_instant (snap_forward t)" by (rule snap_forward_grid[OF vt])
  have l: "dt_less t (snap_forward t)" by (rule snap_forward_later[OF vt])
  have m: "\<forall>g. grid_instant g \<and> dt_less t g \<longrightarrow> dt_le (snap_forward t) g"
    using snap_forward_least[OF vt] by blast
  have c: "(minute t div SCAN_INTERVAL_MINUTES + 1) * SCAN_INTERVAL_MINUTES =
         \<lceil>(of_int (minute t) + 1) / (of_int SCAN_INTERVAL_MINUTES :: rat)\<rceil>
           * SCAN_INTERVAL_MINUTES"
    by (simp only: ceiling_interval)
  have s: "t = session_start t \<longrightarrow>
         get_next_run_time t = dt_add t (timedelta_of 0 (SCAN_INTERVAL_MINUTES * 60))"
    using r session_start_plus_interval valid_datetime_range[OF assms(1)] by simp
  have e: "snap_forward t = session_end t \<longrightarrow> get_next_run_time t = Inr (session_end t)"
    using r by simp
  from r g l m c s e show ?thesis by (intro conjI)
qed

theorem in_window_next_grid_instant_witness:
  "valid_datetime \<lparr>ordinal = 738890, hour = 15, minute = 14, second = 0, microsecond = 0\<rparr> \<and>
   \<not> dt_less \<lparr>ordinal = 738890, hour = 15, minute = 14, second = 0, microsecond = 0\<rparr>
       (session_start \<lparr>ordinal = 738890, hour = 15, minute = 14, second = 0, microsecond = 0\<rparr>) \<and>
   \<not> dt_greater \<lparr>ordinal = 738890, hour = 15, minute = 14, second = 0, microsecond = 0\<rparr>
       (session_end \<lparr>ordinal = 738890, hour = 15, minute = 14, second = 0, microsecond = 0\<rparr>) \<and>
   \<not> dt_greater
       (snap_forward \<lparr>ordinal = 738890, hour = 15, minute = 14, second = 0, microsecond = 0\<rparr>)
       (session_end \<lparr>ordinal = 738890, hour = 15, minute = 14, second = 0, microsecond = 0\<rparr>) \<and>
   get_next_run_time \<lparr>ordinal = 738890, hour = 15, minute = 14, second = 0, microsecond = 0\<rparr>
     = Inr \<lparr>ordinal = 738890, hour = 15, minute = 15, second = 0, microsecond = 0\<rparr> \<and>
   grid_instant \<lparr>ordinal = 738890, hour = 15, minute = 30, second = 0, microsecond = 0\<rparr> \<and>
   dt_less \<lparr>ordinal = 738890, hour = 15, minute = 14, second = 0, microsecond = 0\<rparr>
     \<lparr>ordinal = 738890, hour = 15, minute = 30, second = 0, microsecond = 0\<rparr> \<and>
   dt_le (snap_forward \<lparr>ordinal = 738890, hour = 15, minute = 14, second = 0, microsecond = 0\<rparr>)
     \<lparr>ordinal = 738890, hour = 15, minute = 30, second = 0, microsecond = 0\<rparr>"
proof -
  let ?t = "\<lparr>ordinal = 738890, hour = 15, minute = 14, second = 0, microsecond = 0\<rparr>"
  let ?g = "\<lparr>ordinal = 738890, hour = 15, minute = 30, second = 0, microsecond = 0\<rparr>"
  have sf: "snap_forward ?t = \<lparr>ordinal = 738890, hour = 15, minute = 15, second = 0, microsecond = 0\<rparr>"
    by (simp add: snap_forward_def config_defs)
  have h1: "valid_datetime ?t" by (simp add: valid_datetime_def valid_time_def MAXORDINAL_def)
  have h2: "\<not> dt_less ?t (session_start ?t)"
    by (simp add: dt_less_def session_start_def config_defs)
  have h3: "\<not> dt_greater ?t (session_end ?t)"
    by (simp add: dt_greater_def dt_less_def session_end_def config_defs)
  have h4: "\<not> dt_greater (snap_forward ?t) (session_end ?t)"
    by (simp add: sf dt_greater_def dt_less_def session_end_def config_defs)
  have g1: "grid_instant ?g" by (simp add: grid_instant_def valid_time_def config_defs)
  have g2: "dt_less ?t ?g" by (simp add: dt_less_def)
  show ?thesis
    using in_window_next_grid_instant[OF h1 h2 h3 h4] h1 h2 h3 h4 g1 g2 sf by auto
qed

lemma valid_session_end: "valid_time (session_end t)"
  by (simp add: valid_time_def session_end_def config_defs)

lemma later_day_start:
  "dt_less t (session_start (t\<lparr>ordinal := ordinal t + days_ahead w\<rparr>))"
  by (simp add: dt_less_def session_start_def days_ahead_def)

text \<open>
  Where the snapped candidate is past the end of the session, the instant is not before
  the end of the session.
\<close>

lemma snap_past_end:
  assumes "valid_time t" "\<not> dt_greater t (session_end t)"
    and "dt_greater (snap_forward t) (session_end t)"
  shows "\<not> dt_less t (session_end t)"
  using assms(1)
proof (cases t rule: snap_forward_cases)
  case (same_hour m)
  have "hour t = 15 \<and> 30 \<le> m"
    using assms(2,3) same_hour(1) valid_fields[OF assms(1)] unfolding same_hour(4)
    by (auto simp: dt_greater_def dt_less_def session_end_def config_defs)
  then show ?thesis
    using same_hour(3) valid_fields[OF assms(1)]
    by (auto simp: dt_less_def session_end_def config_defs)
next
  case next_hour
  have "hour t = 15"
    using assms(2,3) valid_fields[OF assms(1)] unfolding next_hour(2)
    by (auto simp: dt_greater_def dt_less_def session_end_def config_defs)
  then show ?thesis
    using next_hour(1) by (auto simp: dt_less_def session_end_def config_defs)
qed

text \<open>The ways through the planner.\<close>

lemma get_next_run_time_cases:
  assumes "valid_datetime t"
  obtains (premarket) "dt_less t (session_start t)" "get_next_run_time t = Inr (session_start t)"
  | (next_day) "ordinal t < MAXORDINAL" "\<not> dt_less t (session_end t)"
      "get_next_run_time t =
        Inr (session_start (t\<lparr>ordinal := ordinal t + days_ahead (weekday t)\<rparr>))"
  | (grid) "\<not> dt_less t (session_start t)" "\<not> dt_greater t (session_end t)"
      "\<not> dt_greater (snap_forward t) (session_end t)" "get_next_run_time t = Inr (snap_forward t)"
  | (overflow) "ordinal t = MAXORDINAL" "\<not> dt_less t (session_end t)"
      "get_next_run_time t = Inl OverflowError"
proof (cases "dt_less t (session_start t)")
  case True
  then show thesis using premarket premarket_lemma by simp
next
  case False
  note vt = valid_datetime_time[OF assms]
  note hi = valid_datetime_range(2)[OF assms]
  show thesis
  proof (cases "dt_greater t (session_end t)")
    case True
    then have nb: "\<not> dt_less t (session_end t)"
      by (auto simp: dt_greater_def dt_less_def)
    show thesis
    proof (cases "ordinal t < MAXORDINAL")
      case True
      then show thesis
        using after_hours_next_day[OF assms \<open>dt_greater t (session_end t)\<close>] nb next_day by simp
    next
      case False
      then have "ordinal t = MAXORDINAL" using hi by simp
      then show thesis
        using after_hours_overflow[OF vt \<open>dt_greater t (session_end t)\<close>] nb overflow by simp
    qed
  next
    case inside: False
    note eq = get_next_run_time_in_window[OF vt False inside]
    show thesis
    proof (cases "dt_greater (snap_forward t) (session_end t)")
      case True
      note nb = snap_past_end[OF vt inside True]
      show thesis
      proof (cases "ordinal t < MAXORDINAL")
        case lt: True
        then show thesis using eq True nb next_day_start_eq[OF assms] next_day by simp
      next
        case False
        then have "ordinal t = MAXORDINAL" using hi by simp
        then show thesis using eq True nb next_day_start_overflow[OF vt] overflow by simp
      qed
    next
      case False
      then show thesis using eq grid \<open>\<not> dt_less t (session_start t)\<close> inside by simp
    qed
  qed
qed

text \<open>
  The claim C2 as the specification words it fails on the last date that Python has, a
  Friday: at the end of the session of 9999-12-31 there is no next day, and the planner
  raises.
\<close>

theorem at_session_end_last_day_counterexample:
  "\<lparr>ordinal = 3652059, hour = 15, minute = 15, second = 0, microsecond = 0\<rparr> =
     session_end \<lparr>ordinal = 3652059, hour = 15, minute = 15, second = 0, microsecond = 0\<rparr> \<and>
   valid_datetime \<lparr>ordinal = 3652059, hour = 15, minute = 15, second = 0, microsecond = 0\<rparr> \<and>
   weekday \<lparr>ordinal = 3652059, hour = 15, minute = 15, second = 0, microsecond = 0\<rparr> = 4 \<and>
   get_next_run_time \<lparr>ordinal = 3652059, hour = 15, minute = 15, second = 0, microsecond = 0\<rparr>
     = Inl OverflowError"
proof -
  let ?t = "\<lparr>ordinal = 3652059, hour = 15, minute = 15, second = 0, microsecond = 0\<rparr>"
  have e: "?t = session_end ?t" by (simp add: session_end_def config_defs)
  have v: "valid_datetime ?t" by (simp add: valid_datetime_def valid_time_def MAXORDINAL_def)
  have w: "weekday ?t = 4" by (simp add: weekday_def)
  have a: "\<not> dt_less ?t (session_start ?t)"
    by (simp add: dt_less_def session_start_def config_defs)
  have b: "\<not> dt_greater ?t (session_end ?t)"
    by (simp add: dt_greater_def dt_less_def session_end_def config_defs)
  have c: "dt_greater (snap_forward ?t) (session_end ?t)"
    by (simp add: snap_forward_code Let_def dt_greater_def dt_less_def session_end_def
          config_defs)
  have "get_next_run_time ?t = next_day_start ?t"
    using get_next_run_time_in_window[OF valid_datetime_time[OF v] a b] c by simp
  also have "\<dots> = Inl OverflowError"
    by (rule next_day_start_overflow[OF valid_datetime_time[OF v]]) (simp add: MAXORDINAL_def)
  finally show ?thesis using e v w by simp
qed

text \<open>
  Claim C2, as the code has it. At the end of the session exactly, on a date before
  9999-12-31, \<open>get_next_run_time\<close> returns the start of the session on the next trading
  day, not the end of the session and no instant of the same date. At the end of the
  session of 9999-12-31 it raises \<open>OverflowError\<close>.
\<close>

theorem at_session_end_rolls_over:
  assumes "t = session_end t" "valid_datetime t"
  shows "(ordinal t < MAXORDINAL \<longrightarrow>
           (\<exists>r. get_next_run_time t = Inr r \<and> next_trading_day_start t r \<and>
                r \<noteq> session_end t \<and> ordinal r \<noteq> ordinal t)) \<and>
         (ordinal t = MAXORDINAL \<longrightarrow> get_next_run_time t = Inl OverflowError)"
proof -
  have f: "hour t = 15" "minute t = 15" "second t = 0" "microsecond t = 0"
    by (subst assms(1), simp add: session_end_def config_defs)+
  note vt = valid_datetime_time[OF assms(2)]
  have a: "\<not> dt_less t (session_start t)"
    by (simp add: dt_less_def session_start_def config_defs f)
  have b: "\<not> dt_greater t (session_end t)"
    by (simp add: dt_greater_def dt_less_def session_end_def config_defs f)
  have c: "dt_greater (snap_forward t) (session_end t)"
    by (simp add: snap_forward_code Let_def dt_greater_def dt_less_def session_end_def
          config_defs f)
  have n: "get_next_run_time t = next_day_start t"
    using get_next_run_time_in_window[OF vt a b] c by simp
  let ?r = "session_start (t\<lparr>ordinal := ordinal t + days_ahead (weekday t)\<rparr>)"
  have first: "\<exists>r. get_next_run_time t = Inr r \<and> next_trading_day_start t r \<and>
                r \<noteq> session_end t \<and> ordinal r \<noteq> ordinal t"
    if "ordinal t < MAXORDINAL"
  proof -
    have "get_next_run_time t = Inr ?r"
      using n next_day_start_eq[OF assms(2) that] by simp
    moreover have "next_trading_day_start t ?r" by (rule next_trading_day_start_ahead)
    moreover have "ordinal ?r \<noteq> ordinal t"
      by (simp add: session_start_def days_ahead_def)
    moreover from this have "?r \<noteq> session_end t"
      by (auto simp: session_end_def)
    ultimately show ?thesis by blast
  qed
  have second: "get_next_run_time t = Inl OverflowError" if "ordinal t = MAXORDINAL"
    using n next_day_start_overflow[OF vt] that by simp
  from first second show ?thesis by blast
qed

theorem at_session_end_rolls_over_witness:
  "\<lparr>ordinal = 738890, hour = 15, minute = 15, second = 0, microsecond = 0\<rparr> =
     session_end \<lparr>ordinal = 738890, hour = 15, minute = 15, second = 0, microsecond = 0\<rparr> \<and>
   valid_datetime \<lparr>ordinal = 738890, hour = 15, minute = 15, second = 0, microsecond = 0\<rparr> \<and>
   ordinal \<lparr>ordinal = 738890, hour = 15, minute = 15, second = 0, microsecond = 0\<rparr>
     < MAXORDINAL \<and>
   (\<exists>r. get_next_run_time
           \<lparr>ordinal = 738890, hour = 15, minute = 15, second = 0, microsecond = 0\<rparr> = Inr r \<and>
        next_trading_day_start
           \<lparr>ordinal = 738890, hour = 15, minute = 15, second = 0, microsecond = 0\<rparr> r \<and>
        r \<noteq> session_end
           \<lparr>ordinal = 738890, hour = 15, minute = 15, second = 0, microsecond = 0\<rparr> \<and>
        ordinal r \<noteq> 738890)"
proof -
  let ?t = "\<lparr>ordinal = 738890, hour = 15, minute = 15, second = 0, microsecond = 0\<rparr>"
  have h: "?t = session_end ?t" by (simp add: session_end_def config_defs)
  have v: "valid_datetime ?t" by (simp add: valid_datetime_def valid_time_def MAXORDINAL_def)
  have b: "ordinal ?t < MAXORDINAL" by (simp add: MAXORDINAL_def)
  show ?thesis
    using at_session_end_rolls_over[OF h v] h v b by simp
qed

section \<open>The planner: progress and re-evaluation\<close>

lemma before_start_before_end:
  assumes "dt_less t (session_start t)"
  shows "dt_less t (session_end t)"
  using assms by (auto simp: dt_less_def session_start_def session_end_def config_defs)

text \<open>What the planner returns is later than its argument.\<close>

lemma strict_lemma:
  assumes "valid_datetime t" "get_next_run_time t = Inr r"
  shows "dt_less t r"
  using assms(1)
proof (cases t rule: get_next_run_time_cases)
  case premarket
  then show ?thesis using assms(2) by simp
next
  case next_day
  then show ?thesis using assms(2) later_day_start by simp
next
  case grid
  then show ?thesis using assms(2) snap_forward_later[OF valid_datetime_time[OF assms(1)]] by simp
next
  case overflow
  then show ?thesis using assms(2) by simp
qed

text \<open>
  The planner returns, but for the last date of the calendar once the end of the session
  is reached; there it raises.
\<close>

lemma planner_returns:
  assumes "valid_datetime t" "ordinal t < MAXORDINAL \<or> dt_less t (session_end t)"
  shows "\<exists>r. get_next_run_time t = Inr r"
  using assms(1)
proof (cases t rule: get_next_run_time_cases)
  case overflow
  then show ?thesis using assms(2) by simp
qed simp_all

lemma planner_raises:
  assumes "valid_datetime t" "ordinal t = MAXORDINAL" "\<not> dt_less t (session_end t)"
  shows "get_next_run_time t = Inl OverflowError"
  using assms(1)
proof (cases t rule: get_next_run_time_cases)
  case premarket
  then show ?thesis using assms(3) before_start_before_end by blast
next
  case next_day
  then show ?thesis using assms(2) by simp
next
  case grid
  have f: "hour t = 15" "minute t = 15" "second t = 0" "microsecond t = 0"
    using assms(3) grid(2) valid_fields[OF valid_datetime_time[OF assms(1)]]
    by (auto simp: dt_greater_def dt_less_def session_end_def config_defs)
  have "dt_greater (snap_forward t) (session_end t)"
    by (simp add: snap_forward_code Let_def dt_greater_def dt_less_def session_end_def
          config_defs f)
  then show ?thesis using grid(3) by simp
next
  case overflow
  then show ?thesis by simp
qed

text \<open>
  The claim C10 as the specification words it fails on the last date that Python has: in
  the last second of 9999-12-31 the planner returns no instant at all, it raises.
\<close>

theorem strict_progress_last_day_counterexample:
  "valid_datetime \<lparr>ordinal = 3652059, hour = 23, minute = 59, second = 59, microsecond = 999999\<rparr> \<and>
   get_next_run_time
     \<lparr>ordinal = 3652059, hour = 23, minute = 59, second = 59, microsecond = 999999\<rparr>
     = Inl OverflowError"
proof -
  let ?t = "\<lparr>ordinal = 3652059, hour = 23, minute = 59, second = 59, microsecond = 999999\<rparr>"
  have v: "valid_datetime ?t" by (simp add: valid_datetime_def valid_time_def MAXORDINAL_def)
  have "get_next_run_time ?t = Inl OverflowError"
    by (rule planner_raises[OF v])
       (simp_all add: MAXORDINAL_def dt_less_def session_end_def config_defs)
  then show ?thesis using v by simp
qed

text \<open>
  Claim C10, as the code has it. For every instant \<open>now\<close> other than those of 9999-12-31
  from 15:15:00 on, with the configured window (09:15 to 15:15, every 15 minutes),
  \<open>get_next_run_time\<close> returns an instant strictly after \<open>now\<close>, whichever branch is
  taken. On 9999-12-31 from 15:15:00 on it raises \<open>OverflowError\<close>.
\<close>

theorem strict_progress:
  assumes "valid_datetime t"
  shows "(ordinal t < MAXORDINAL \<or> dt_less t (session_end t) \<longrightarrow>
           (\<exists>r. get_next_run_time t = Inr r \<and> dt_less t r)) \<and>
         (ordinal t = MAXORDINAL \<and> \<not> dt_less t (session_end t) \<longrightarrow>
           get_next_run_time t = Inl OverflowError)"
  using planner_returns[OF assms] strict_lemma[OF assms] planner_raises[OF assms] by blast

theorem strict_progress_witness:
  "valid_datetime \<lparr>ordinal = 738890, hour = 15, minute = 15, second = 0, microsecond = 0\<rparr> \<and>
   ordinal \<lparr>ordinal = 738890, hour = 15, minute = 15, second = 0, microsecond = 0\<rparr>
     < MAXORDINAL \<and>
   (\<exists>r. get_next_run_time
           \<lparr>ordinal = 738890, hour = 15, minute = 15, second = 0, microsecond = 0\<rparr> = Inr r \<and>
        dt_less \<lparr>ordinal = 738890, hour = 15, minute = 15, second = 0, microsecond = 0\<rparr> r)"
proof -
  let ?t = "\<lparr>ordinal = 738890, hour = 15, minute = 15, second = 0, microsecond = 0\<rparr>"
  have v: "valid_datetime ?t" by (simp add: valid_datetime_def valid_time_def MAXORDINAL_def)
  have b: "ordinal ?t < MAXORDINAL" by (simp add: MAXORDINAL_def)
  show ?thesis using v b strict_progress[OF v] by simp
qed

lemma minus_one_second:
  assumes "valid_datetime r" "second r = 0" "microsecond r = 0" "0 < minute r \<or> 0 < hour r"
  shows "dt_add r (timedelta_of 0 (- 1)) =
         Inr (if 0 < minute r then r\<lparr>minute := minute r - 1, second := 59\<rparr>
              else r\<lparr>hour := hour r - 1, minute := 59, second := 59\<rparr>)"
proof (rule dt_add_eq)
  note v = valid_fields[OF valid_datetime_time[OF assms(1)]]
  note rng = valid_datetime_range[OF assms(1)]
  show "valid_datetime (if 0 < minute r then r\<lparr>minute := minute r - 1, second := 59\<rparr>
          else r\<lparr>hour := hour r - 1, minute := 59, second := 59\<rparr>)"
    using v rng assms(4) by (auto simp: valid_datetime_def valid_time_def)
  show "to_microseconds (if 0 < minute r then r\<lparr>minute := minute r - 1, second := 59\<rparr>
          else r\<lparr>hour := hour r - 1, minute := 59, second := 59\<rparr>) =
        to_microseconds r + timedelta_of 0 (- 1)"
    using v assms(2,3,4) by (auto simp: to_microseconds_def timedelta_of_def)
qed

lemma reevaluate_session_start:
  assumes "1 \<le> ordinal u" "ordinal u \<le> MAXORDINAL"
  shows "\<exists>p. dt_add (session_start u) (timedelta_of 0 (- 1)) = Inr p \<and>
             get_next_run_time p = Inr (session_start u)"
proof -
  let ?r = "session_start u"
  have f: "hour ?r = 9" "minute ?r = 15" "second ?r = 0" "microsecond ?r = 0"
    "ordinal ?r = ordinal u"
    by (simp_all add: session_start_def config_defs)
  have v: "valid_datetime ?r" using assms by (simp add: valid_datetime_def valid_time_def f)
  have p: "dt_add ?r (timedelta_of 0 (- 1)) = Inr (?r\<lparr>minute := 14, second := 59\<rparr>)"
    using minus_one_second[OF v f(3,4)] f by simp
  have "dt_less (?r\<lparr>minute := 14, second := 59\<rparr>) (session_start (?r\<lparr>minute := 14, second := 59\<rparr>))"
    by (simp add: dt_less_def session_start_def config_defs)
  then have "get_next_run_time (?r\<lparr>minute := 14, second := 59\<rparr>)
             = Inr (session_start (?r\<lparr>minute := 14, second := 59\<rparr>))"
    by (rule premarket_lemma)
  moreover have "session_start (?r\<lparr>minute := 14, second := 59\<rparr>) = ?r"
    by (simp add: session_start_def)
  ultimately show ?thesis using p by simp
qed

lemma reevaluate_grid:
  assumes "valid_datetime t"
    and "\<not> dt_less t (session_start t)" and "\<not> dt_greater t (session_end t)"
    and "\<not> dt_greater (snap_forward t) (session_end t)"
  shows "\<exists>p. dt_add (snap_forward t) (timedelta_of 0 (- 1)) = Inr p \<and>
             get_next_run_time p = Inr (snap_forward t)"
proof -
  note vt = valid_datetime_time[OF assms(1)]
  note v = valid_fields[OF vt]
  note rng = valid_datetime_range[OF assms(1)]
  note hr = in_window_hour[OF vt assms(2,3)]
  have lo: "hour t = 9 \<longrightarrow> 15 \<le> minute t"
    using assms(2) v by (auto simp: dt_less_def session_start_def config_defs)
  have "\<exists>p. dt_add (snap_forward t) (timedelta_of 0 (- 1)) = Inr p \<and>
        valid_time p \<and> \<not> dt_less p (session_start p) \<and> \<not> dt_greater p (session_end p)
        \<and> snap_forward p = snap_forward t \<and> session_end p = session_end t"
    using vt
  proof (cases t rule: snap_forward_cases)
    case (same_hour m)
    let ?r = "t\<lparr>minute := m, second := 0, microsecond := 0\<rparr>"
    define p where "p = t\<lparr>minute := m - 1, second := 59, microsecond := 0\<rparr>"
    have vr: "valid_datetime ?r"
      using v rng same_hour(1) by (auto simp: valid_datetime_def valid_time_def)
    have hi: "hour t = 15 \<longrightarrow> m = 15"
      using assms(4) same_hour(1) unfolding same_hour(4)
      by (auto simp: dt_greater_def dt_less_def session_end_def config_defs)
    have "dt_add ?r (timedelta_of 0 (- 1)) = Inr (?r\<lparr>minute := m - 1, second := 59\<rparr>)"
      using minus_one_second[OF vr] same_hour(1) by auto
    then have ad: "dt_add (snap_forward t) (timedelta_of 0 (- 1)) = Inr p"
      unfolding same_hour(4) p_def by simp
    have sp: "snap_forward p = snap_forward t"
      unfolding same_hour(4) unfolding snap_forward_code p_def using same_hour(1)
      by (auto simp: Let_def config_defs)
    have "valid_time p" unfolding p_def using v same_hour(1) by (auto simp: valid_time_def)
    moreover have "\<not> dt_less p (session_start p)"
      unfolding p_def using hr lo same_hour(1,2)
      by (auto simp: dt_less_def session_start_def config_defs)
    moreover have "\<not> dt_greater p (session_end p)"
      unfolding p_def using hr hi same_hour(1)
      by (auto simp: dt_greater_def dt_less_def session_end_def config_defs)
    moreover have "session_end p = session_end t" unfolding p_def by (simp add: session_end_def)
    ultimately show ?thesis using ad sp by blast
  next
    case next_hour
    let ?r = "t\<lparr>hour := hour t + 1, minute := 0, second := 0, microsecond := 0\<rparr>"
    define p where "p = t\<lparr>minute := 59, second := 59, microsecond := 0\<rparr>"
    have vr: "valid_datetime ?r"
      using v rng hr by (auto simp: valid_datetime_def valid_time_def)
    have hi: "hour t \<le> 14"
      using assms(4) hr unfolding next_hour(2)
      by (auto simp: dt_greater_def dt_less_def session_end_def config_defs)
    have "dt_add ?r (timedelta_of 0 (- 1)) = Inr (?r\<lparr>hour := hour t, minute := 59, second := 59\<rparr>)"
      using minus_one_second[OF vr] hr by auto
    then have ad: "dt_add (snap_forward t) (timedelta_of 0 (- 1)) = Inr p"
      unfolding next_hour(2) p_def by simp
    have sp: "snap_forward p = snap_forward t"
      unfolding next_hour(2) unfolding snap_forward_code p_def
      by (simp add: Let_def config_defs)
    have "valid_time p" unfolding p_def using v by (auto simp: valid_time_def)
    moreover have "\<not> dt_less p (session_start p)"
      unfolding p_def using hr by (auto simp: dt_less_def session_start_def config_defs)
    moreover have "\<not> dt_greater p (session_end p)"
      unfolding p_def using hi
      by (auto simp: dt_greater_def dt_less_def session_end_def config_defs)
    moreover have "session_end p = session_end t" unfolding p_def by (simp add: session_end_def)
    ultimately show ?thesis using ad sp by blast
  qed
  then obtain p where ad: "dt_add (snap_forward t) (timedelta_of 0 (- 1)) = Inr p"
    and a: "valid_time p" and b: "\<not> dt_less p (session_start p)"
    and c: "\<not> dt_greater p (session_end p)"
    and d: "snap_forward p = snap_forward t" and e: "session_end p = session_end t"
    by blast
  have "get_next_run_time p =
        (if dt_greater (snap_forward p) (session_end p) then next_day_start p
         else Inr (snap_forward p))"
    by (rule get_next_run_time_in_window[OF a b c])
  also have "\<dots> = Inr (snap_forward t)"
    unfolding d e using assms(4) by simp
  finally show ?thesis using ad by blast
qed

text \<open>
  The claim C6 as the specification words it fails on the last date that Python has: in
  the evening of 9999-12-31 the planner raises, and there is no \<open>r\<close> to evaluate again.
\<close>

theorem idempotent_reevaluation_last_day_counterexample:
  "valid_datetime \<lparr>ordinal = 3652059, hour = 20, minute = 30, second = 0, microsecond = 0\<rparr> \<and>
   get_next_run_time \<lparr>ordinal = 3652059, hour = 20, minute = 30, second = 0, microsecond = 0\<rparr>
     = Inl OverflowError"
proof -
  let ?t = "\<lparr>ordinal = 3652059, hour = 20, minute = 30, second = 0, microsecond = 0\<rparr>"
  have v: "valid_datetime ?t" by (simp add: valid_datetime_def valid_time_def MAXORDINAL_def)
  have "get_next_run_time ?t = Inl OverflowError"
    by (rule planner_raises[OF v])
       (simp_all add: MAXORDINAL_def dt_less_def session_end_def config_defs)
  then show ?thesis using v by simp
qed

text \<open>
  Claim C6, as the code has it. Re-evaluation gives the same instant: for every instant
  \<open>t\<close> other than those of 9999-12-31 from 15:15:00 on, \<open>get_next_run_time\<close> returns
  an instant \<open>r\<close> for \<open>t\<close>, and it returns \<open>r\<close> again for \<open>r\<close> minus one second.
\<close>

theorem idempotent_reevaluation:
  assumes "valid_datetime t" "ordinal t < MAXORDINAL \<or> dt_less t (session_end t)"
  shows "\<exists>r p. get_next_run_time t = Inr r \<and>
               dt_add r (timedelta_of 0 (- 1)) = Inr p \<and>
               get_next_run_time p = Inr r"
  using assms(1)
proof (cases t rule: get_next_run_time_cases)
  case premarket
  then show ?thesis
    using reevaluate_session_start[OF valid_datetime_range[OF assms(1)]] by auto
next
  case next_day
  have "ordinal t + days_ahead (weekday t) \<le> MAXORDINAL"
    by (rule days_ahead_in_range[OF valid_datetime_range(1)[OF assms(1)] next_day(1)])
  moreover have "1 \<le> ordinal t + days_ahead (weekday t)"
    using valid_datetime_range(1)[OF assms(1)] by (simp add: days_ahead_def)
  ultimately show ?thesis
    using next_day(3)
      reevaluate_session_start[of "t\<lparr>ordinal := ordinal t + days_ahead (weekday t)\<rparr>"]
    by auto
next
  case grid
  then show ?thesis using reevaluate_grid[OF assms(1)] by auto
next
  case overflow
  then show ?thesis using assms(2) by simp
qed

theorem idempotent_reevaluation_witness:
  "valid_datetime \<lparr>ordinal = 738886, hour = 10, minute = 7, second = 30, microsecond = 0\<rparr> \<and>
   ordinal \<lparr>ordinal = 738886, hour = 10, minute = 7, second = 30, microsecond = 0\<rparr>
     < MAXORDINAL \<and>
   (\<exists>r p. get_next_run_time
           \<lparr>ordinal = 738886, hour = 10, minute = 7, second = 30, microsecond = 0\<rparr> = Inr r \<and>
        dt_add r (timedelta_of 0 (- 1)) = Inr p \<and> get_next_run_time p = Inr r)"
proof -
  let ?t = "\<lparr>ordinal = 738886, hour = 10, minute = 7, second = 30, microsecond = 0\<rparr>"
  have v: "valid_datetime ?t" by (simp add: valid_datetime_def valid_time_def MAXORDINAL_def)
  have b: "ordinal ?t < MAXORDINAL" by (simp add: MAXORDINAL_def)
  show ?thesis using v b idempotent_reevaluation[OF v disjI1[OF b]] by simp
qed

section \<open>The scheduler loop: one turn\<close>

lemma scaled_less:
  fixes x y k u v :: int
  assumes "x < y" "u < k" "0 \<le> v" "0 \<le> k"
  shows "x * k + u < y * k + v"
proof -
  have "(x + 1) * k \<le> y * k" using assms(1,4) by (intro mult_right_mono) simp_all
  then have "x * k + k \<le> y * k" by (simp add: algebra_simps)
  then show ?thesis using assms(2,3) by linarith
qed

lemma dt_less_microseconds:
  assumes "valid_time a" "valid_time b" "dt_less a b"
  shows "to_microseconds a < to_microseconds b"
proof -
  note va = valid_fields[OF assms(1)]
  note vb = valid_fields[OF assms(2)]
  define sa where "sa = (hour a * 60 + minute a) * 60 + second a"
  define sb where "sb = (hour b * 60 + minute b) * 60 + second b"
  have ba: "0 \<le> sa" "sa < 86400" using va by (simp_all add: sa_def)
  have bb: "0 \<le> sb" "sb < 86400" using vb by (simp_all add: sb_def)
  have ta: "to_microseconds a = (ordinal a * 86400 + sa) * 1000000 + microsecond a"
    by (simp add: to_microseconds_def sa_def algebra_simps)
  have tb: "to_microseconds b = (ordinal b * 86400 + sb) * 1000000 + microsecond b"
    by (simp add: to_microseconds_def sb_def algebra_simps)
  consider (day) "ordinal a < ordinal b"
    | (secs) "ordinal a = ordinal b" "sa < sb"
    | (micro) "ordinal a = ordinal b" "sa = sb" "microsecond a < microsecond b"
    using assms(3) va vb unfolding dt_less_def sa_def sb_def by auto
  then show ?thesis
  proof cases
    case day
    have lt: "ordinal a * 86400 + sa < ordinal b * 86400 + sb"
      by (rule scaled_less[OF day ba(2) bb(1)]) simp
    show ?thesis unfolding ta tb by (rule scaled_less[OF lt va(8) vb(7)]) simp
  next
    case secs
    then have lt: "ordinal a * 86400 + sa < ordinal b * 86400 + sb" by simp
    show ?thesis unfolding ta tb by (rule scaled_less[OF lt va(8) vb(7)]) simp
  next
    case micro
    then show ?thesis unfolding ta tb by simp
  qed
qed

lemma total_seconds_positive:
  "0 < total_seconds d \<longleftrightarrow> 0 < d"
  by (simp add: total_seconds_def)

lemma job_outcome:
  "job env =
     (if fetch_fails env then ([LogInfo, Fetch], Inl FetchFailed)
      else if send_fails env then ([LogInfo, Fetch, Send], Inl SendFailed)
      else ([LogInfo, Fetch, Send], Inr ()))"
  by (simp add: job_def and_then_def log_info_def)


lemma wait_and_run_normal:
  assumes "0 < w" "w \<le> 24 * 3600"
  shows "wait_and_run w env = (LogInfo # Sleep w # fst (job env), snd (job env))"
  using assms by (simp add: wait_and_run_def and_then_def log_info_def sleep_def)

lemma wait_and_run_backoff:
  assumes "w \<le> 0"
  shows "wait_and_run w env = (Sleep 1 # fst (job env), snd (job env))"
  using assms by (simp add: wait_and_run_def and_then_def sleep_def)






text \<open>
  A weekend reading that is not before \<open>now\<close> leaves room in the calendar for the Monday
  after \<open>now\<close>.
\<close>

lemma weekend_target_in_range:
  assumes "valid_datetime now" "valid_datetime today" "5 \<le> weekday today"
    and "\<not> dt_less today now"
  shows "ordinal now + (7 - weekday now) \<le> MAXORDINAL"
proof -
  have le: "ordinal now \<le> ordinal today"
    using assms(4) by (auto simp: dt_less_def)
  have "weekday today = 5 \<or> weekday today = 6"
    using assms(3) weekday_range(2)[of today] by linarith
  then have "ordinal today + 5 \<le> MAXORDINAL"
    using saturday_before_last[of "ordinal today"] sunday_before_last[of "ordinal today"]
      valid_datetime_range(2)[OF assms(2)]
    by (auto simp: weekday_def)
  then have "ordinal now \<le> 3652054" using le by (simp add: MAXORDINAL_def)
  then have "ordinal now + (7 - (ordinal now + 6) mod 7) \<le> 3652059" by presburger
  then show ?thesis by (simp add: weekday_def MAXORDINAL_def)
qed

lemma next_monday_start_eq:
  assumes "valid_datetime now" "ordinal now + (7 - weekday now) \<le> MAXORDINAL"
  shows "next_monday_start now =
         Inr (session_start (now\<lparr>ordinal := ordinal now + (7 - weekday now)\<rparr>))"
proof -
  have "0 < ordinal now + (7 - weekday now)"
    using valid_datetime_range(1)[OF assms(1)] weekday_range(2)[of now] by linarith
  then show ?thesis
    using assms(2)
    by (simp add: next_monday_start_def dt_add_days[OF valid_datetime_time[OF assms(1)]]
          replace_start)
qed

lemma next_monday_is_monday:
  "weekday (session_start (now\<lparr>ordinal := ordinal now + (7 - weekday now)\<rparr>)) = 0"
proof -
  have "weekday (session_start (now\<lparr>ordinal := ordinal now + (7 - weekday now)\<rparr>))
        = ordinal_weekday (ordinal now + (7 - weekday now))"
    by (simp add: session_start_def weekday_def ordinal_weekday_def)
  also have "\<dots> = (ordinal_weekday (ordinal now) + (7 - weekday now)) mod 7"
    by (rule ordinal_weekday_shift)
  also have "ordinal_weekday (ordinal now) = weekday now"
    by (simp add: weekday_def ordinal_weekday_def)
  finally show ?thesis by simp
qed

lemma main_loop_append:
  "main_loop (before @ rest) = main_loop before @ main_loop rest"
  by (induction before) simp_all

section \<open>The scheduler loop: weekends and failures\<close>

text \<open>
  Claim C8. On a turn of the loop whose trading-day test fails (a Saturday or a Sunday),
  the body computes the target as \<open>now\<close> plus \<open>7 - now.weekday()\<close> days with the time of
  day replaced by the start of the session, which is a Monday (two days after a Saturday,
  one day after a Sunday), sleeps the whole time until then without calling \<open>job\<close>, and the
  loop goes on with the next turn and its own clock readings. The clock does not run
  backwards: the reading of the test is not before \<open>now\<close>.
\<close>

theorem weekend_turn:
  assumes "\<not> is_trading_day (day_reading env)" "valid_datetime (now_reading env)"
    and "valid_datetime (day_reading env)"
    and "\<not> dt_less (day_reading env) (now_reading env)"
  shows "\<exists>next_run.
           next_monday_start (now_reading env) = Inr next_run \<and>
           next_run = session_start ((now_reading env)
                        \<lparr>ordinal := ordinal (now_reading env) + (7 - weekday (now_reading env))\<rparr>) \<and>
           weekday next_run = 0 \<and>
           (weekday (now_reading env) = 5 \<longrightarrow> ordinal next_run = ordinal (now_reading env) + 2) \<and>
           (weekday (now_reading env) = 6 \<longrightarrow> ordinal next_run = ordinal (now_reading env) + 1) \<and>
           loop_body env =
             ([LogInfo, Sleep (total_seconds (dt_diff next_run (now_reading env)))], Inr ()) \<and>
           main_loop (env # rest) =
             [LogInfo, Sleep (total_seconds (dt_diff next_run (now_reading env)))] @ main_loop rest"
proof -
  define now where "now = now_reading env"
  define next_run where
    "next_run = session_start (now\<lparr>ordinal := ordinal now + (7 - weekday now)\<rparr>)"
  have v: "valid_datetime now" using assms(2) by (simp add: now_def)
  have "5 \<le> weekday (day_reading env)" using assms(1) by (simp add: is_trading_day_def)
  then have rng: "ordinal now + (7 - weekday now) \<le> MAXORDINAL"
    using weekend_target_in_range[OF assms(2,3) _ assms(4)] by (simp add: now_def)
  have m: "next_monday_start now = Inr next_run"
    unfolding next_run_def by (rule next_monday_start_eq[OF v rng])
  have w: "weekday next_run = 0" unfolding next_run_def by (rule next_monday_is_monday)
  have o: "ordinal next_run = ordinal now + (7 - weekday now)"
    by (simp add: next_run_def session_start_def)
  have vr: "valid_time next_run"
    by (simp add: next_run_def session_start_def valid_time_def config_defs)
  have "dt_less now next_run"
    using o weekday_range(2)[of now] by (simp add: dt_less_def)
  then have "to_microseconds now < to_microseconds next_run"
    by (rule dt_less_microseconds[OF valid_datetime_time[OF v] vr])
  then have pos: "0 < total_seconds (dt_diff next_run now)"
    by (simp add: total_seconds_positive dt_diff_def)
  have body: "loop_body env = ([LogInfo, Sleep (total_seconds (dt_diff next_run now))], Inr ())"
    using assms(1) m pos
    by (simp add: loop_body_def Let_def now_def[symmetric] and_then_def log_info_def sleep_def)
  then have loop: "main_loop (env # rest) =
      [LogInfo, Sleep (total_seconds (dt_diff next_run now))] @ main_loop rest"
    by (simp add: iteration_def)
  have sat: "weekday now = 5 \<longrightarrow> ordinal next_run = ordinal now + 2" using o by simp
  have sun: "weekday now = 6 \<longrightarrow> ordinal next_run = ordinal now + 1" using o by simp
  from m next_run_def w sat sun body loop show ?thesis
    unfolding now_def[symmetric] by blast
qed

theorem weekend_turn_witness:
  "\<not> is_trading_day (day_reading
     \<lparr>now_reading = \<lparr>ordinal = 738892, hour = 10, minute = 0, second = 0, microsecond = 0\<rparr>,
      day_reading = \<lparr>ordinal = 738892, hour = 10, minute = 0, second = 1, microsecond = 0\<rparr>,
      fetch_fails = False, send_fails = False\<rparr>) \<and>
   valid_datetime (now_reading
     \<lparr>now_reading = \<lparr>ordinal = 738892, hour = 10, minute = 0, second = 0, microsecond = 0\<rparr>,
      day_reading = \<lparr>ordinal = 738892, hour = 10, minute = 0, second = 1, microsecond = 0\<rparr>,
      fetch_fails = False, send_fails = False\<rparr>) \<and>
   valid_datetime (day_reading
     \<lparr>now_reading = \<lparr>ordinal = 738892, hour = 10, minute = 0, second = 0, microsecond = 0\<rparr>,
      day_reading = \<lparr>ordinal = 738892, hour = 10, minute = 0, second = 1, microsecond = 0\<rparr>,
      fetch_fails = False, send_fails = False\<rparr>) \<and>
   \<not> dt_less
     (day_reading
       \<lparr>now_reading = \<lparr>ordinal = 738892, hour = 10, minute = 0, second = 0, microsecond = 0\<rparr>,
        day_reading = \<lparr>ordinal = 738892, hour = 10, minute = 0, second = 1, microsecond = 0\<rparr>,
        fetch_fails = False, send_fails = False\<rparr>)
     (now_reading
       \<lparr>now_reading = \<lparr>ordinal = 738892, hour = 10, minute = 0, second = 0, microsecond = 0\<rparr>,
        day_reading = \<lparr>ordinal = 738892, hour = 10, minute = 0, second = 1, microsecond = 0\<rparr>,
        fetch_fails = False, send_fails = False\<rparr>) \<and>
   loop_body
     \<lparr>now_reading = \<lparr>ordinal = 738892, hour = 10, minute = 0, second = 0, microsecond = 0\<rparr>,
      day_reading = \<lparr>ordinal = 738892, hour = 10, minute = 0, second = 1, microsecond = 0\<rparr>,
      fetch_fails = False, send_fails = False\<rparr> = ([LogInfo, Sleep 83700], Inr ())"
proof -
  let ?now = "\<lparr>ordinal = 738892, hour = 10, minute = 0, second = 0, microsecond = 0\<rparr>"
  let ?env = "\<lparr>now_reading = ?now,
      day_reading = \<lparr>ordinal = 738892, hour = 10, minute = 0, second = 1, microsecond = 0\<rparr>,
      fetch_fails = False, send_fails = False\<rparr>"
  have h1: "\<not> is_trading_day (day_reading ?env)" by (simp add: is_trading_day_def weekday_def)
  have h2: "valid_datetime (now_reading ?env)"
    by (simp add: valid_datetime_def valid_time_def MAXORDINAL_def)
  have h3: "valid_datetime (day_reading ?env)"
    by (simp add: valid_datetime_def valid_time_def MAXORDINAL_def)
  have h4: "\<not> dt_less (day_reading ?env) (now_reading ?env)" by (simp add: dt_less_def)
  have d: "total_seconds (dt_diff (session_start (?now\<lparr>ordinal := ordinal ?now + (7 - weekday ?now)\<rparr>)) ?now) = 83700"
    by (simp add: total_seconds_def dt_diff_def to_microseconds_def session_start_def
          weekday_def config_defs)
  from weekend_turn[OF h1 h2 h3 h4, of "[]"] obtain next_run where
    "next_run = session_start (?now\<lparr>ordinal := ordinal ?now + (7 - weekday ?now)\<rparr>)"
    "loop_body ?env = ([LogInfo, Sleep (total_seconds (dt_diff next_run ?now))], Inr ())"
    by auto
  then have "loop_body ?env = ([LogInfo, Sleep 83700], Inr ())" using d by simp
  then show ?thesis using h1 h2 h3 h4 by blast
qed

text \<open>
  Claim C7. Whatever exception the body of the loop raises on a turn, a failure of the
  fetch or of the send in \<open>job\<close> included, the handler logs it and sleeps 60 seconds, and
  the loop goes on with the next turn, which works from its own clock readings: the
  failure does not end the loop, whatever turns came before and come after.
\<close>

theorem exception_turn:
  assumes "loop_body env = (evs, Inl e)"
  shows "iteration env = evs @ [LogError e, Sleep 60] \<and>
         main_loop (before @ env # rest) =
           main_loop before @ evs @ [LogError e, Sleep 60] @ main_loop rest \<and>
         (\<forall>w. w \<le> 24 * 3600 \<longrightarrow> snd (wait_and_run w env) = snd (job env)) \<and>
         (fetch_fails env \<longrightarrow> snd (job env) = Inl FetchFailed) \<and>
         (\<not> fetch_fails env \<and> send_fails env \<longrightarrow> snd (job env) = Inl SendFailed)"
proof -
  have i: "iteration env = evs @ [LogError e, Sleep 60]"
    using assms by (simp add: iteration_def)
  then have l: "main_loop (before @ env # rest) =
           main_loop before @ evs @ [LogError e, Sleep 60] @ main_loop rest"
    by (simp add: main_loop_append)
  have w: "\<forall>w. w \<le> 24 * 3600 \<longrightarrow> snd (wait_and_run w env) = snd (job env)"
  proof (intro allI impI)
    fix w :: rat
    assume "w \<le> 24 * 3600"
    then show "snd (wait_and_run w env) = snd (job env)"
      by (cases "0 < w") (simp_all add: wait_and_run_normal wait_and_run_backoff)
  qed
  have j: "(fetch_fails env \<longrightarrow> snd (job env) = Inl FetchFailed) \<and>
         (\<not> fetch_fails env \<and> send_fails env \<longrightarrow> snd (job env) = Inl SendFailed)"
    by (simp add: job_outcome)
  from i l w j show ?thesis by blast
qed

lemma friday_morning_fetch_failure:
  "loop_body
     \<lparr>now_reading = \<lparr>ordinal = 738890, hour = 10, minute = 0, second = 0, microsecond = 0\<rparr>,
      day_reading = \<lparr>ordinal = 738890, hour = 10, minute = 0, second = 0, microsecond = 0\<rparr>,
      fetch_fails = True, send_fails = False\<rparr>
   = ([LogInfo, Sleep 900, LogInfo, Fetch], Inl FetchFailed)"
proof -
  let ?now = "\<lparr>ordinal = 738890, hour = 10, minute = 0, second = 0, microsecond = 0\<rparr>"
  let ?next = "\<lparr>ordinal = 738890, hour = 10, minute = 15, second = 0, microsecond = 0\<rparr>"
  have g: "get_next_run_time ?now = Inr ?next"
    by (simp add: get_next_run_time_def replace_def dt_less_def dt_greater_def config_defs
          Let_def)
  have d: "total_seconds (dt_diff ?next ?now) = 900"
    by (simp add: total_seconds_def dt_diff_def to_microseconds_def)
  show ?thesis
    by (simp add: loop_body_def Let_def is_trading_day_def weekday_def g d wait_and_run_normal
          job_outcome)
qed

theorem exception_turn_witness:
  "loop_body
     \<lparr>now_reading = \<lparr>ordinal = 738890, hour = 10, minute = 0, second = 0, microsecond = 0\<rparr>,
      day_reading = \<lparr>ordinal = 738890, hour = 10, minute = 0, second = 0, microsecond = 0\<rparr>,
      fetch_fails = True, send_fails = False\<rparr>
     = ([LogInfo, Sleep 900, LogInfo, Fetch], Inl FetchFailed) \<and>
   main_loop
     [\<lparr>now_reading = \<lparr>ordinal = 738890, hour = 10, minute = 0, second = 0, microsecond = 0\<rparr>,
       day_reading = \<lparr>ordinal = 738890, hour = 10, minute = 0, second = 0, microsecond = 0\<rparr>,
       fetch_fails = True, send_fails = False\<rparr>]
     = [LogInfo, Sleep 900, LogInfo, Fetch, LogError FetchFailed, Sleep 60]"
  using exception_turn[OF friday_morning_fetch_failure, of "[]" "[]"]
        friday_morning_fetch_failure
  by simp

section \<open>A Saturday inside the daily window\<close>

text \<open>
  The planner does not look at the weekday of its argument: on a Saturday at 10:00 it
  returns the same Saturday at 10:15, not the following Monday at 09:15.
\<close>

theorem saturday_in_window_counterexample:
  "weekday \<lparr>ordinal = 738891, hour = 10, minute = 0, second = 0, microsecond = 0\<rparr> = 5 \<and>
   get_next_run_time \<lparr>ordinal = 738891, hour = 10, minute = 0, second = 0, microsecond = 0\<rparr>
     = Inr \<lparr>ordinal = 738891, hour = 10, minute = 15, second = 0, microsecond = 0\<rparr> \<and>
   get_next_run_time \<lparr>ordinal = 738891, hour = 10, minute = 0, second = 0, microsecond = 0\<rparr>
     \<noteq> Inr \<lparr>ordinal = 738893, hour = 9, minute = 15, second = 0, microsecond = 0\<rparr>"
  by (simp add: get_next_run_time_def replace_def dt_less_def dt_greater_def config_defs
        Let_def weekday_def)

text \<open>
  Claim C5, as the code has it. For an instant \<open>t\<close> on a Saturday at 10:00,
  \<open>get_next_run_time\<close> returns the same Saturday at 10:15:00. The following Monday at
  09:15:00 is the target that the weekend branch of \<open>main_loop\<close> computes from such a
  \<open>t\<close>: there the body sleeps the 170100 seconds until then and does not call the planner.
\<close>

theorem saturday_in_window:
  assumes "valid_datetime t"
    and "weekday t = 5" "hour t = 10" "minute t = 0" "second t = 0" "microsecond t = 0"
  shows "get_next_run_time t = Inr (t\<lparr>minute := 15\<rparr>) \<and>
         next_monday_start t = Inr (session_start (t\<lparr>ordinal := ordinal t + 2\<rparr>)) \<and>
         weekday (session_start (t\<lparr>ordinal := ordinal t + 2\<rparr>)) = 0 \<and>
         (\<forall>env. now_reading env = t \<and> \<not> is_trading_day (day_reading env) \<longrightarrow>
                loop_body env = ([LogInfo, Sleep 170100], Inr ()))"
proof -
  note vt = valid_datetime_time[OF assms(1)]
  have a: "\<not> dt_less t (session_start t)"
    using assms by (simp add: dt_less_def session_start_def config_defs)
  have b: "\<not> dt_greater t (session_end t)"
    using assms by (simp add: dt_greater_def dt_less_def session_end_def config_defs)
  have sf: "snap_forward t = t\<lparr>minute := 15\<rparr>"
    unfolding snap_forward_code
    by (rule datetime.equality) (simp_all add: Let_def config_defs assms)
  have c: "\<not> dt_greater (snap_forward t) (session_end t)"
    unfolding sf using assms by (simp add: dt_greater_def dt_less_def session_end_def config_defs)
  have g: "get_next_run_time t = Inr (t\<lparr>minute := 15\<rparr>)"
    using get_next_run_time_in_window[OF vt a b] c sf by simp
  have "ordinal t + 6 \<le> MAXORDINAL"
    using assms(2) valid_datetime_range(2)[OF assms(1)]
    by (intro saturday_before_last) (simp_all add: weekday_def)
  then have m: "next_monday_start t = Inr (session_start (t\<lparr>ordinal := ordinal t + 2\<rparr>))"
    using next_monday_start_eq[OF assms(1)] assms(2) by simp
  have w: "weekday (session_start (t\<lparr>ordinal := ordinal t + 2\<rparr>)) = 0"
    using next_monday_is_monday[of t] assms(2) by simp
  have d: "total_seconds (dt_diff (session_start (t\<lparr>ordinal := ordinal t + 2\<rparr>)) t) = 170100"
    by (simp add: total_seconds_def dt_diff_def to_microseconds_def session_start_def
          config_defs assms)
  have l: "\<forall>env. now_reading env = t \<and> \<not> is_trading_day (day_reading env) \<longrightarrow>
                loop_body env = ([LogInfo, Sleep 170100], Inr ())"
    using m d by (auto simp: loop_body_def Let_def and_then_def log_info_def sleep_def)
  from g m w l show ?thesis by blast
qed

theorem saturday_in_window_witness:
  "valid_datetime \<lparr>ordinal = 738891, hour = 10, minute = 0, second = 0, microsecond = 0\<rparr> \<and>
   weekday \<lparr>ordinal = 738891, hour = 10, minute = 0, second = 0, microsecond = 0\<rparr> = 5 \<and>
   get_next_run_time \<lparr>ordinal = 738891, hour = 10, minute = 0, second = 0, microsecond = 0\<rparr>
     = Inr \<lparr>ordinal = 738891, hour = 10, minute = 15, second = 0, microsecond = 0\<rparr> \<and>
   next_monday_start \<lparr>ordinal = 738891, hour = 10, minute = 0, second = 0, microsecond = 0\<rparr>
     = Inr \<lparr>ordinal = 738893, hour = 9, minute = 15, second = 0, microsecond = 0\<rparr>"
proof -
  let ?t = "\<lparr>ordinal = 738891, hour = 10, minute = 0, second = 0, microsecond = 0\<rparr>"
  have v: "valid_datetime ?t" by (simp add: valid_datetime_def valid_time_def MAXORDINAL_def)
  have h: "weekday ?t = 5" by (simp add: weekday_def)
  show ?thesis
    using saturday_in_window[OF v] v h by (simp add: session_start_def config_defs)
qed

end
